theory Spec2Isabelle
  imports Main "HOL-Library.AList"
begin

section \<open>Python strings, lists and dictionaries\<close>

text \<open>
  The program is \<^verbatim>\<open>tools/pptx_deep_compare.py\<close>. Its strings are modelled as
  \<^typ>\<open>string\<close>, its lists as HOL lists, and its dictionaries as association lists with
  distinct keys kept in insertion order (\<^const>\<open>AList.update\<close> is \<^verbatim>\<open>d[k] = v\<close>:
  it overwrites in place or appends, as a Python dict does; \<^const>\<open>map_of\<close> is the
  lookup). Exceptions are values of type \<open>error\<close>, returned as \<open>Inl\<close>.
\<close>

datatype error = ParseError | ValueError | IndexError | KeyError | LookupError

text \<open>\<^verbatim>\<open>s.startswith(p)\<close>, \<^verbatim>\<open>s.endswith(p)\<close> and \<^verbatim>\<open>sub in s\<close>.\<close>

definition startswith :: "string \<Rightarrow> string \<Rightarrow> bool" where
  "startswith s p = (take (length p) s = p)"

definition endswith :: "string \<Rightarrow> string \<Rightarrow> bool" where
  "endswith s p = (length p \<le> length s \<and> drop (length s - length p) s = p)"

fun str_in :: "string \<Rightarrow> string \<Rightarrow> bool" where
  "str_in sub [] = (sub = [])"
| "str_in sub (c # cs) = (startswith (c # cs) sub \<or> str_in sub cs)"

text \<open>\<^verbatim>\<open>s.split(sep)\<close> for a one-character separator: never the empty list.\<close>

fun str_split :: "char \<Rightarrow> string \<Rightarrow> string list" where
  "str_split sep [] = [[]]"
| "str_split sep (c # cs) =
     (if c = sep then [] # str_split sep cs
      else (case str_split sep cs of
              [] \<Rightarrow> [[c]]
            | w # ws \<Rightarrow> (c # w) # ws))"

text \<open>\<^verbatim>\<open>sep.join(xs)\<close>.\<close>

fun str_join :: "string \<Rightarrow> string list \<Rightarrow> string" where
  "str_join sep [] = []"
| "str_join sep [x] = x"
| "str_join sep (x # y # ys) = x @ sep @ str_join sep (y # ys)"

text \<open>\<^verbatim>\<open>s.lstrip(c)\<close> for a one-character set.\<close>

definition lstrip :: "string \<Rightarrow> char \<Rightarrow> string" where
  "lstrip s c = dropWhile (\<lambda>x. x = c) s"

text \<open>
  \<^verbatim>\<open>s.replace(old, new)\<close>: every non-overlapping occurrence, left to right. The
  program only calls it with a non-empty \<open>old\<close>; for an empty one the model returns
  \<open>s\<close> unchanged.
\<close>

function str_replace :: "string \<Rightarrow> string \<Rightarrow> string \<Rightarrow> string" where
  "str_replace old new [] = []"
| "str_replace old new (c # cs) =
     (if old \<noteq> [] \<and> startswith (c # cs) old
      then new @ str_replace old new (drop (length old) (c # cs))
      else c # str_replace old new cs)"
  by pat_completeness auto
termination
  by (relation "measure (\<lambda>(old, new, s). length s)") auto

text \<open>\<^verbatim>\<open>s.upper()\<close> on ASCII letters.\<close>

definition upper_char :: "char \<Rightarrow> char" where
  "upper_char c =
     (let n = (of_char c :: nat) in if 97 \<le> n \<and> n \<le> 122 then char_of (n - 32) else c)"

definition upper :: "string \<Rightarrow> string" where
  "upper s = map upper_char s"

text \<open>\<^verbatim>\<open>xs.index(x)\<close>: the first position, or \<^verbatim>\<open>ValueError\<close>.\<close>

fun list_index :: "'a list \<Rightarrow> 'a \<Rightarrow> error + nat" where
  "list_index [] x = Inl ValueError"
| "list_index (y # ys) x =
     (if y = x then Inr 0
      else (case list_index ys x of Inl e \<Rightarrow> Inl e | Inr i \<Rightarrow> Inr (Suc i)))"

text \<open>\<^verbatim>\<open>xs.pop()\<close>: drops the last element, or \<^verbatim>\<open>IndexError\<close> on an empty list.\<close>

definition py_pop :: "'a list \<Rightarrow> error + 'a list" where
  "py_pop xs = (if xs = [] then Inl IndexError else Inr (butlast xs))"

text \<open>\<^verbatim>\<open>d.get(k, default)\<close>.\<close>

definition dict_get :: "('k \<times> 'v) list \<Rightarrow> 'k \<Rightarrow> 'v \<Rightarrow> 'v" where
  "dict_get d k dflt = (case map_of d k of None \<Rightarrow> dflt | Some v \<Rightarrow> v)"

text \<open>
  A \<^verbatim>\<open>for\<close> loop whose body appends items to a list and may raise: the items of all
  iterations in order, or the exception of the first iteration that raises.
\<close>

fun collect :: "('a \<Rightarrow> error + 'b list) \<Rightarrow> 'a list \<Rightarrow> error + 'b list" where
  "collect body [] = Inr []"
| "collect body (x # xs) =
     (case body x of
        Inl e \<Rightarrow> Inl e
      | Inr ys \<Rightarrow> (case collect body xs of Inl e \<Rightarrow> Inl e | Inr zs \<Rightarrow> Inr (ys @ zs)))"

section \<open>The reference resolver\<close>

text \<open>
  The loop of \<^verbatim>\<open>_resolve_target\<close> over the segments of \<^verbatim>\<open>base + '/' + target\<close>,
  with the list \<^verbatim>\<open>resolved\<close> as accumulator.
\<close>

fun resolve_loop :: "string list \<Rightarrow> string list \<Rightarrow> error + string list" where
  "resolve_loop resolved [] = Inr resolved"
| "resolve_loop resolved (p # ps) =
     (if p = ''..'' then
        (if resolved \<noteq> [] then
           (case py_pop resolved of
              Inl e \<Rightarrow> Inl e
            | Inr popped \<Rightarrow> resolve_loop popped ps)
         else resolve_loop resolved ps)
      else if p \<noteq> [] \<and> p \<noteq> ''.'' then resolve_loop (resolved @ [p]) ps
      else resolve_loop resolved ps)"

text \<open>The local \<^verbatim>\<open>base = '/'.join(source.split('/')[:-1])\<close> of \<^verbatim>\<open>_resolve_target\<close>.\<close>

definition base_of :: "string \<Rightarrow> string" where
  "base_of source = str_join ''/'' (butlast (str_split (CHR ''/'') source))"

definition resolve_target :: "string \<Rightarrow> string \<Rightarrow> error + string" where
  "resolve_target source target =
     (if startswith target ''/'' then Inr (lstrip target (CHR ''/''))
      else if source = [] then Inr target
      else
        (let base = base_of source in
         if base = [] then Inr target
         else
           (case resolve_loop [] (str_split (CHR ''/'') (base @ ''/'' @ target)) of
              Inl e \<Rightarrow> Inl e
            | Inr resolved \<Rightarrow> Inr (str_join ''/'' resolved))))"

text \<open>
  The resolver as section 4.4 of the specification words it, for a target that is not
  absolute and a source that is not empty: the containing directory of the source
  (\<^const>\<open>base_of\<close>), a
  \<open>/\<close>, the target; split on \<open>/\<close>; the segments processed left to right; the result
  joined by \<open>/\<close>. It is compared with \<^const>\<open>resolve_target\<close> below.
\<close>

fun spec_normalize :: "string list \<Rightarrow> string list \<Rightarrow> string list" where
  "spec_normalize acc [] = acc"
| "spec_normalize acc (seg # segs) =
     (if seg = ''..'' then spec_normalize (butlast acc) segs
      else if seg = ''.'' \<or> seg = [] then spec_normalize acc segs
      else spec_normalize (acc @ [seg]) segs)"

definition spec_resolve :: "string \<Rightarrow> string \<Rightarrow> string" where
  "spec_resolve source target =
     str_join ''/''
       (spec_normalize [] (str_split (CHR ''/'') (base_of source @ ''/'' @ target)))"

section \<open>XML trees and archive entries\<close>

text \<open>
  An element of \<^verbatim>\<open>xml.etree.ElementTree\<close>: its tag in the \<open>{namespace}local\<close> form
  the library uses, its attribute dictionary, its text (\<open>None\<close> when the element has
  none) and its child elements in document order.
\<close>

datatype xml =
  Element (xtag: string) (xattrib: "(string \<times> string) list") (xtext: "string option")
    (xchildren: "xml list")

text \<open>The namespace table \<^verbatim>\<open>NS\<close> and the qualified name a prefixed path step stands for.\<close>

definition NS_ct :: string where
  "NS_ct = ''http://schemas.openxmlformats.org/package/2006/content-types''"

definition NS_rel :: string where
  "NS_rel = ''http://schemas.openxmlformats.org/package/2006/relationships''"

definition NS_p :: string where
  "NS_p = ''http://schemas.openxmlformats.org/presentationml/2006/main''"

definition NS_r :: string where
  "NS_r = ''http://schemas.openxmlformats.org/officeDocument/2006/relationships''"

definition NS_ep :: string where
  "NS_ep = ''http://schemas.openxmlformats.org/officeDocument/2006/extended-properties''"

definition qname :: "string \<Rightarrow> string \<Rightarrow> string" where
  "qname ns name = ''{'' @ ns @ ''}'' @ name"

text \<open>The entries of \<^verbatim>\<open>REL_TYPES\<close> that the program reads.\<close>

definition REL_TYPES_slideMaster :: string where
  "REL_TYPES_slideMaster =
     ''http://schemas.openxmlformats.org/officeDocument/2006/relationships/slideMaster''"

text \<open>\<^verbatim>\<open>el.get(key, default)\<close>; \<^verbatim>\<open>el.get(key)\<close> is \<open>map_of (xattrib el) key\<close>.\<close>

definition attr_get :: "xml \<Rightarrow> string \<Rightarrow> string \<Rightarrow> string" where
  "attr_get el key dflt = dict_get (xattrib el) key dflt"

text \<open>
  The path expressions the program uses: \<^verbatim>\<open>findall('t')\<close> (the children with tag
  \<open>t\<close>), \<^verbatim>\<open>findall('.//t')\<close> (the descendants with tag \<open>t\<close>, in document order,
  the element itself excluded), \<^verbatim>\<open>findall('.//a/t')\<close> (the children with tag \<open>t\<close>
  of the descendants with tag \<open>a\<close>) and \<^verbatim>\<open>find\<close> (the first match or \<open>None\<close>).
\<close>

definition findall_child :: "xml \<Rightarrow> string \<Rightarrow> xml list" where
  "findall_child el t = filter (\<lambda>c. xtag c = t) (xchildren el)"

fun descendants :: "xml \<Rightarrow> xml list" where
  "descendants (Element t a x cs) = concat (map (\<lambda>c. c # descendants c) cs)"

definition findall_desc :: "xml \<Rightarrow> string \<Rightarrow> xml list" where
  "findall_desc el t = filter (\<lambda>c. xtag c = t) (descendants el)"

definition findall_desc_child :: "xml \<Rightarrow> string \<Rightarrow> string \<Rightarrow> xml list" where
  "findall_desc_child el a t = concat (map (\<lambda>d. findall_child d t) (findall_desc el a))"

definition find_first :: "xml list \<Rightarrow> xml option" where
  "find_first els = (case els of [] \<Rightarrow> None | el # _ \<Rightarrow> Some el)"

text \<open>
  The archive is read only through \<^verbatim>\<open>hashlib.sha256(content).hexdigest()[:16]\<close> and
  \<^verbatim>\<open>ET.fromstring(content)\<close>, so an entry's bytes are modelled by these two views:
  the truncated digest, and what the parser makes of the bytes. It returns the root
  element, or it raises: \<^verbatim>\<open>ParseError\<close> when the bytes are not well-formed XML,
  \<^verbatim>\<open>LookupError\<close> when the XML declaration names an encoding Python does not know,
  and \<^verbatim>\<open>ValueError\<close> when it names a multi-byte encoding, which the parser does
  not support. The guards \<^verbatim>\<open>except ET.ParseError\<close> of the program catch the first of
  the three only.
\<close>

datatype parse = Parsed xml | NotWellFormed | UnknownEncoding | MultiByteEncoding

record entry =
  sha16 :: string
  etree :: parse

definition fromstring :: "entry \<Rightarrow> error + xml" where
  "fromstring content =
     (case etree content of
        Parsed root \<Rightarrow> Inr root
      | NotWellFormed \<Rightarrow> Inl ParseError
      | UnknownEncoding \<Rightarrow> Inl LookupError
      | MultiByteEncoding \<Rightarrow> Inl ValueError)"

text \<open>
  \<^verbatim>\<open>re.match(prefix + r'\d+\.xml$', name)\<close>: the prefix, one or more decimal digits,
  \<open>.xml\<close>, and the end of the string or a single newline before it. Names are strings of
  8-bit characters, among which only \<open>0\<close> to \<open>9\<close> are decimal digits.
\<close>

definition is_digit :: "char \<Rightarrow> bool" where
  "is_digit c = (let n = (of_char c :: nat) in 48 \<le> n \<and> n \<le> 57)"

definition re_match_numbered :: "string \<Rightarrow> string \<Rightarrow> bool" where
  "re_match_numbered pre name =
     (startswith name pre \<and>
      (let rest = drop (length pre) name; back = dropWhile is_digit rest
       in takeWhile is_digit rest \<noteq> [] \<and> (back = ''.xml'' \<or> back = ''.xml'' @ [CHR 0x0A])))"

text \<open>
  \<^verbatim>\<open>int(s)\<close> on a string: surrounding whitespace is stripped (among the 8-bit
  characters: tab, line feed, vertical tab, form feed, carriage return, space, next line
  and no-break space), a sign may lead, and the digits may be separated by single
  underscores; anything else raises \<^verbatim>\<open>ValueError\<close>, and so do more than 4300 digits
  (the default of \<^verbatim>\<open>sys.set_int_max_str_digits\<close>, which the program does not change).
\<close>

definition is_space :: "char \<Rightarrow> bool" where
  "is_space c = ((of_char c :: nat) \<in> {9, 10, 11, 12, 13, 32, 133, 160})"

fun int_body_ok :: "string \<Rightarrow> bool" where
  "int_body_ok [] = False"
| "int_body_ok [c] = is_digit c"
| "int_body_ok (c # d # cs) =
     (is_digit c \<and> (if d = CHR ''_'' then int_body_ok cs else int_body_ok (d # cs)))"

definition digits_value :: "string \<Rightarrow> nat" where
  "digits_value ds = foldl (\<lambda>acc c. 10 * acc + ((of_char c :: nat) - 48)) 0 ds"

definition py_int :: "string \<Rightarrow> error + int" where
  "py_int s =
     (let t = rev (dropWhile is_space (rev (dropWhile is_space s)));
          neg = (t \<noteq> [] \<and> hd t = CHR ''-'');
          body = (if t \<noteq> [] \<and> (hd t = CHR ''-'' \<or> hd t = CHR ''+'') then tl t else t)
      in if int_body_ok body \<and> length (filter is_digit body) \<le> 4300
         then Inr ((if neg then - 1 else 1) * int (digits_value (filter is_digit body)))
         else Inl ValueError)"

section \<open>The package model (PPTXAnalyzer)\<close>

text \<open>
  A relationship, as \<^verbatim>\<open>_parse_rels\<close> stores it. The dictionary entry
  \<^verbatim>\<open>'resolved'\<close> is an optional string so that an absent or \<^verbatim>\<open>None\<close> value can be
  told from a string.
\<close>

record rel =
  rel_id :: string
  rel_type :: string
  rel_target :: string
  rel_mode :: string
  rel_resolved :: "string option"

text \<open>An entry of the list \<^verbatim>\<open>invalid_relations\<close> of \<^verbatim>\<open>_validate_presentation_rels\<close>.\<close>

record invalid_rel =
  ir_rid :: string
  ir_type :: string
  ir_target :: string
  ir_reason :: string

text \<open>
  The issue dictionaries, one constructor per shape, with the fields the program stores
  in the order it writes them. The rendered text \<^verbatim>\<open>'msg'\<close> is left out: nothing
  reads it but the report. \<open>issue_type\<close> is the entry \<^verbatim>\<open>'type'\<close>.
\<close>

datatype issue =
    ISSUE_CRITICAL
  | ISSUE_ERROR string
  | DUPLICATE_RID string string nat
  | BROKEN_REF string string string
  | MISSING_CONTENT_TYPE string
  | MISSING_LAYOUT_RELS string
  | LAYOUT_NO_MASTER string
  | DUPLICATE_SLIDE_ID "string list"
  | DUPLICATE_MASTER_ID "string list"
  | INVALID_PRESENTATION_RELS "invalid_rel list"
  | PRES_RELS_INVALID string nat "string list" "string list"
  | SECTION_INVALID_SLIDE_REF string string
  | MISSING_NOTESMASTER_REL string
  | NOTESLIDE_MISSING_SLIDE_REF string string
  | NOTESLIDE_NO_MASTER string
  | APP_SLIDE_COUNT_MISMATCH int int
  | APP_NOTE_COUNT_MISMATCH int int
  | INVALID_COMMENT_AUTHORS_XML
  | INVALID_COMMENT_XML string
  | COMMENT_INVALID_AUTHOR_ID string string

fun issue_type :: "issue \<Rightarrow> string" where
  "issue_type ISSUE_CRITICAL = ''CRITICAL''"
| "issue_type (ISSUE_ERROR rels_path) = ''ERROR''"
| "issue_type (DUPLICATE_RID source rid count) = ''DUPLICATE_RID''"
| "issue_type (BROKEN_REF source target rid) = ''BROKEN_REF''"
| "issue_type (MISSING_CONTENT_TYPE part) = ''MISSING_CONTENT_TYPE''"
| "issue_type (MISSING_LAYOUT_RELS part) = ''MISSING_LAYOUT_RELS''"
| "issue_type (LAYOUT_NO_MASTER part) = ''LAYOUT_NO_MASTER''"
| "issue_type (DUPLICATE_SLIDE_ID ids) = ''DUPLICATE_SLIDE_ID''"
| "issue_type (DUPLICATE_MASTER_ID ids) = ''DUPLICATE_MASTER_ID''"
| "issue_type (INVALID_PRESENTATION_RELS invalid_relations) = ''INVALID_PRESENTATION_RELS''"
| "issue_type (PRES_RELS_INVALID kind count rids targets) =
     ''PRES_RELS_INVALID_'' @ upper kind"
| "issue_type (SECTION_INVALID_SLIDE_REF sect slideId) = ''SECTION_INVALID_SLIDE_REF''"
| "issue_type (MISSING_NOTESMASTER_REL rid) = ''MISSING_NOTESMASTER_REL''"
| "issue_type (NOTESLIDE_MISSING_SLIDE_REF noteslide rid) = ''NOTESLIDE_MISSING_SLIDE_REF''"
| "issue_type (NOTESLIDE_NO_MASTER noteslide) = ''NOTESLIDE_NO_MASTER''"
| "issue_type (APP_SLIDE_COUNT_MISMATCH declared actual) = ''APP_SLIDE_COUNT_MISMATCH''"
| "issue_type (APP_NOTE_COUNT_MISMATCH declared actual) = ''APP_NOTE_COUNT_MISMATCH''"
| "issue_type INVALID_COMMENT_AUTHORS_XML = ''INVALID_COMMENT_AUTHORS_XML''"
| "issue_type (INVALID_COMMENT_XML name) = ''INVALID_COMMENT_XML''"
| "issue_type (COMMENT_INVALID_AUTHOR_ID file author_id) = ''COMMENT_INVALID_AUTHOR_ID''"

text \<open>
  The state of a \<^verbatim>\<open>PPTXAnalyzer\<close>: \<open>files\<close> maps a part name to its content (the
  dictionary \<^verbatim>\<open>hashes\<close> has the same keys and is the field \<open>sha16\<close> of the content),
  \<open>content_types\<close> the overrides, \<open>default_types\<close> the defaults by extension,
  \<open>relations\<close> a source part to its relationships, and \<open>issues\<close> the issue list.
\<close>

record analyzer =
  files :: "(string \<times> entry) list"
  content_types :: "(string \<times> string) list"
  default_types :: "(string \<times> string) list"
  relations :: "(string \<times> rel list) list"
  issues :: "issue list"

text \<open>The state \<^verbatim>\<open>__init__\<close> leaves.\<close>

definition init_analyzer :: analyzer where
  "init_analyzer =
     \<lparr>files = [], content_types = [], default_types = [], relations = [], issues = []\<rparr>"

text \<open>
  \<^verbatim>\<open>_load_files\<close>. The archive is the list of the names of \<^verbatim>\<open>zip.namelist()\<close>, each
  with the content \<^verbatim>\<open>zip.read\<close> returns for it.
\<close>

definition load_files :: "(string \<times> entry) list \<Rightarrow> analyzer \<Rightarrow> analyzer" where
  "load_files archive a =
     a\<lparr>files := fold (\<lambda>(name, content) d. AList.update name content d) archive (files a)\<rparr>"

text \<open>
  \<^verbatim>\<open>_parse_content_types\<close>. The call of \<^verbatim>\<open>ET.fromstring\<close> is not guarded:
  every exception of the parser leaves the method.
\<close>

definition parse_content_types :: "analyzer \<Rightarrow> error + analyzer" where
  "parse_content_types a =
     (case map_of (files a) ''[Content_Types].xml'' of
        None \<Rightarrow> Inr (a\<lparr>issues := issues a @ [ISSUE_CRITICAL]\<rparr>)
      | Some content \<Rightarrow>
          (case fromstring content of
             Inl e \<Rightarrow> Inl e
           | Inr root \<Rightarrow>
               Inr (a\<lparr>default_types :=
                        fold (\<lambda>dflt d. AList.update (attr_get dflt ''Extension'' [])
                                (attr_get dflt ''ContentType'' []) d)
                          (findall_child root (qname NS_ct ''Default'')) (default_types a),
                      content_types :=
                        fold (\<lambda>override d.
                                AList.update (lstrip (attr_get override ''PartName'' []) (CHR ''/''))
                                  (attr_get override ''ContentType'' []) d)
                          (findall_child root (qname NS_ct ''Override'')) (content_types a)\<rparr>)))"

text \<open>\<^verbatim>\<open>_rels_to_part\<close>: \<^verbatim>\<open>parts.index('_rels')\<close> raises when no segment is \<open>_rels\<close>.\<close>

definition rels_to_part :: "string \<Rightarrow> error + string" where
  "rels_to_part rels_path =
     (if rels_path = ''_rels/.rels'' then Inr []
      else
        (let parts = str_split (CHR ''/'') rels_path in
         case list_index parts ''_rels'' of
           Inl e \<Rightarrow> Inl e
         | Inr rels_idx \<Rightarrow>
             (let base = str_join ''/'' (take rels_idx parts);
                  filename = str_replace ''.rels'' [] (last parts)
              in Inr (if base \<noteq> [] then base @ ''/'' @ filename else filename))))"

text \<open>The loop of \<^verbatim>\<open>_parse_rels\<close> over the \<^verbatim>\<open>Relationship\<close> elements.\<close>

fun parse_relationships :: "string \<Rightarrow> xml list \<Rightarrow> error + rel list" where
  "parse_relationships source_part [] = Inr []"
| "parse_relationships source_part (el # els) =
     (let rid = attr_get el ''Id'' [];
          rtype = attr_get el ''Type'' [];
          target = attr_get el ''Target'' [];
          mode = attr_get el ''TargetMode'' ''Internal''
      in case (if mode \<noteq> ''External'' then resolve_target source_part target else Inr target) of
           Inl e \<Rightarrow> Inl e
         | Inr resolved \<Rightarrow>
             (case parse_relationships source_part els of
                Inl e \<Rightarrow> Inl e
              | Inr rels \<Rightarrow>
                  Inr (\<lparr>rel_id = rid, rel_type = rtype, rel_target = target, rel_mode = mode,
                        rel_resolved = Some resolved\<rparr> # rels)))"

text \<open>
  \<^verbatim>\<open>_parse_rels\<close>: only the parse is guarded, and only against \<^verbatim>\<open>ParseError\<close>;
  any other exception of the parser and the \<^verbatim>\<open>ValueError\<close> of \<^verbatim>\<open>_rels_to_part\<close>
  leave the method.
\<close>

definition parse_rels :: "string \<Rightarrow> analyzer \<Rightarrow> error + analyzer" where
  "parse_rels rels_path a =
     (case map_of (files a) rels_path of
        None \<Rightarrow> Inl KeyError
      | Some content \<Rightarrow>
          (case fromstring content of
             Inl e \<Rightarrow>
               if e = ParseError then Inr (a\<lparr>issues := issues a @ [ISSUE_ERROR rels_path]\<rparr>)
               else Inl e
           | Inr root \<Rightarrow>
               (case rels_to_part rels_path of
                  Inl e \<Rightarrow> Inl e
                | Inr source_part \<Rightarrow>
                    (case parse_relationships source_part
                            (findall_child root (qname NS_rel ''Relationship'')) of
                       Inl e \<Rightarrow> Inl e
                     | Inr rels \<Rightarrow>
                         Inr (a\<lparr>relations := AList.update source_part rels (relations a)\<rparr>)))))"

text \<open>\<^verbatim>\<open>_parse_all_rels\<close>: the loop over the names of \<^verbatim>\<open>self.files\<close>.\<close>

fun parse_rels_loop :: "string list \<Rightarrow> analyzer \<Rightarrow> error + analyzer" where
  "parse_rels_loop [] a = Inr a"
| "parse_rels_loop (name # names) a =
     (if endswith name ''.rels'' then
        (case parse_rels name a of
           Inl e \<Rightarrow> Inl e
         | Inr a' \<Rightarrow> parse_rels_loop names a')
      else parse_rels_loop names a)"

definition parse_all_rels :: "analyzer \<Rightarrow> error + analyzer" where
  "parse_all_rels a = parse_rels_loop (map fst (files a)) a"

section \<open>The validator\<close>

text \<open>
  Every check is modelled by the list of issues it appends to \<^verbatim>\<open>self.issues\<close>, in
  the order it appends them. Where the program iterates over a Python \<^verbatim>\<open>set\<close>, whose
  order the language leaves open, the model takes the order of the list the set was built
  from; the theorems below speak of membership and counts, not of that order. A check
  that parses a part guards the parse against \<^verbatim>\<open>ParseError\<close> only: it returns its
  issues, or the exception that left it.
\<close>

text \<open>The counter \<^verbatim>\<open>rid_counts\<close> (a \<^verbatim>\<open>defaultdict(int)\<close>) of \<^verbatim>\<open>_validate_references\<close>.\<close>

definition rid_counts :: "rel list \<Rightarrow> (string \<times> nat) list" where
  "rid_counts rels =
     fold (\<lambda>r d. AList.update (rel_id r) (dict_get d (rel_id r) 0 + 1) d) rels []"

definition duplicate_rid_issues :: "string \<Rightarrow> rel list \<Rightarrow> issue list" where
  "duplicate_rid_issues source rels =
     concat (map (\<lambda>(rid, count). if count > 1 then [DUPLICATE_RID source rid count] else [])
               (rid_counts rels))"

definition broken_ref_issues :: "string list \<Rightarrow> string \<Rightarrow> rel list \<Rightarrow> issue list" where
  "broken_ref_issues all_parts source rels =
     concat (map (\<lambda>r.
        if rel_mode r = ''External'' then []
        else (case rel_resolved r of
                None \<Rightarrow> []
              | Some target \<Rightarrow>
                  if target \<noteq> [] \<and> target \<notin> set all_parts
                  then [BROKEN_REF source target (rel_id r)] else [])) rels)"

text \<open>The first loop of \<^verbatim>\<open>_validate_references\<close>, over \<^verbatim>\<open>self.relations.items()\<close>.\<close>

definition reference_issues :: "analyzer \<Rightarrow> issue list" where
  "reference_issues a =
     concat (map (\<lambda>(source, rels).
        duplicate_rid_issues source rels @ broken_ref_issues (map fst (files a)) source rels)
       (relations a))"

text \<open>The second loop of \<^verbatim>\<open>_validate_references\<close>: content-type coverage.\<close>

definition content_type_issues :: "analyzer \<Rightarrow> issue list" where
  "content_type_issues a =
     concat (map (\<lambda>part.
        if startswith part ''_rels/'' \<or> endswith part ''.rels'' then []
        else if part = ''[Content_Types].xml'' then []
        else
          (let ext = (if CHR ''.'' \<in> set part then last (str_split (CHR ''.'') part) else [])
           in if part \<notin> set (map fst (content_types a)) \<and> ext \<notin> set (map fst (default_types a))
              then [MISSING_CONTENT_TYPE part] else []))
       (map fst (files a)))"

text \<open>\<^verbatim>\<open>_validate_layout_master_chain\<close>.\<close>

definition validate_layout_master_chain :: "analyzer \<Rightarrow> issue list" where
  "validate_layout_master_chain a =
     concat (map (\<lambda>name.
        if \<not> re_match_numbered ''ppt/slideLayouts/slideLayout'' name then []
        else
          (let layout_rels_path =
                 str_replace ''ppt/slideLayouts/'' ''ppt/slideLayouts/_rels/'' name @ ''.rels''
           in if layout_rels_path \<notin> set (map fst (files a)) then [MISSING_LAYOUT_RELS name]
              else
                (let rels = dict_get (relations a) name [];
                     has_master = list_ex (\<lambda>r. str_in REL_TYPES_slideMaster (rel_type r)) rels
                 in if \<not> has_master then [LAYOUT_NO_MASTER name] else [])))
       (map fst (files a)))"

text \<open>
  The values of attribute \<open>key\<close> over a list of elements that pass the test
  \<^verbatim>\<open>if sid:\<close> (present and not empty).
\<close>

definition truthy_attrs :: "xml list \<Rightarrow> string \<Rightarrow> string list" where
  "truthy_attrs els key =
     concat (map (\<lambda>el. case map_of (xattrib el) key of
                          None \<Rightarrow> []
                        | Some v \<Rightarrow> if v \<noteq> [] then [v] else []) els)"

text \<open>The table \<^verbatim>\<open>INVALID_PRES_REL_TYPES\<close> and \<^verbatim>\<open>_validate_presentation_rels\<close>.\<close>

definition INVALID_PRES_REL_TYPES :: "(string \<times> string) list" where
  "INVALID_PRES_REL_TYPES =
     [(''image'', ''Images should be in slide/layout/master .rels, not presentation.xml.rels''),
      (''slideLayout'', ''SlideLayouts should be in slideMaster .rels, not presentation.xml.rels''),
      (''notesSlide'', ''NotesSlides should be in slide .rels, not presentation.xml.rels''),
      (''audio'', ''Audio should be in slide .rels, not presentation.xml.rels''),
      (''video'', ''Video should be in slide .rels, not presentation.xml.rels''),
      (''chart'', ''Charts should be in slide .rels, not presentation.xml.rels''),
      (''oleObject'', ''OLE objects should be in slide .rels, not presentation.xml.rels'')]"

text \<open>\<^verbatim>\<open>rel['type'].split('/')[-1]\<close>.\<close>

definition type_name :: "rel \<Rightarrow> string" where
  "type_name r = last (str_split (CHR ''/'') (rel_type r))"

text \<open>
  The grouping idiom \<^verbatim>\<open>if k not in by_type: by_type[k] = []; by_type[k].append(x)\<close>.
\<close>

definition group_by :: "('a \<Rightarrow> 'k) \<Rightarrow> 'a list \<Rightarrow> ('k \<times> 'a list) list" where
  "group_by key xs = fold (\<lambda>x d. AList.update (key x) (dict_get d (key x) [] @ [x]) d) xs []"

definition invalid_rels_of :: "rel list \<Rightarrow> invalid_rel list" where
  "invalid_rels_of pres_rels =
     concat (map (\<lambda>r.
        (let rel_type_name = type_name r
         in case map_of INVALID_PRES_REL_TYPES rel_type_name of
              None \<Rightarrow> []
            | Some reason \<Rightarrow>
                [\<lparr>ir_rid = rel_id r, ir_type = rel_type_name, ir_target = rel_target r,
                  ir_reason = reason\<rparr>])) pres_rels)"

definition validate_presentation_rels :: "analyzer \<Rightarrow> issue list" where
  "validate_presentation_rels a =
     (let pres_rels = dict_get (relations a) ''ppt/presentation.xml'' [];
          invalid_rels = invalid_rels_of pres_rels
      in if invalid_rels \<noteq> [] then
           INVALID_PRESENTATION_RELS invalid_rels #
           map (\<lambda>(kind, rels). PRES_RELS_INVALID kind (length rels) (map ir_rid rels)
                                   (map ir_target rels))
             (group_by ir_type invalid_rels)
         else [])"

text \<open>\<^verbatim>\<open>_validate_sections\<close>.\<close>

definition validate_sections :: "xml \<Rightarrow> issue list" where
  "validate_sections pres_root =
     (let sections =
            map (\<lambda>sect. (attr_get sect ''name'' [],
                          map (\<lambda>sldIdRef. map_of (xattrib sldIdRef) ''id'')
                            (findall_desc_child sect (qname NS_p ''sldIdLst'') (qname NS_p ''sldId''))))
              (findall_desc_child pres_root (qname NS_p ''sectionLst'') (qname NS_p ''section''));
          all_slide_ids =
            truthy_attrs
              (findall_desc_child pres_root (qname NS_p ''sldIdLst'') (qname NS_p ''sldId'')) ''id''
      in concat (map (\<lambda>(name, slideIds).
           concat (map (\<lambda>slide_ref.
             (case slide_ref of
                None \<Rightarrow> []
              | Some sid \<Rightarrow>
                  if sid \<noteq> [] \<and> sid \<notin> set all_slide_ids
                  then [SECTION_INVALID_SLIDE_REF name sid] else [])) slideIds)) sections))"

text \<open>\<^verbatim>\<open>_validate_notes_master\<close>.\<close>

definition validate_notes_master :: "analyzer \<Rightarrow> xml \<Rightarrow> issue list" where
  "validate_notes_master a pres_root =
     (case find_first (findall_desc_child pres_root (qname NS_p ''notesMasterIdLst'')
                         (qname NS_p ''notesMasterId'')) of
        None \<Rightarrow> []
      | Some notes_master \<Rightarrow>
          (case map_of (xattrib notes_master) (qname NS_r ''id'') of
             None \<Rightarrow> []
           | Some rid \<Rightarrow>
               if rid \<noteq> [] then
                 (let rels = dict_get (relations a) ''ppt/presentation.xml'' [];
                      has_rel = list_ex (\<lambda>r. rel_id r = rid) rels
                  in if \<not> has_rel then [MISSING_NOTESMASTER_REL rid] else [])
               else []))"

text \<open>
  \<^verbatim>\<open>_validate_presentation_ids\<close>, with the three checks it calls once
  \<^verbatim>\<open>ppt/presentation.xml\<close> is there and parses; it returns early when the part is
  absent or the parser raises \<^verbatim>\<open>ParseError\<close>.
\<close>

definition duplicate_id_issue :: "(string list \<Rightarrow> issue) \<Rightarrow> string list \<Rightarrow> issue list" where
  "duplicate_id_issue mk ids =
     (let duplicates = filter (\<lambda>s. count_list ids s > 1) ids
      in if duplicates \<noteq> [] then [mk (remdups duplicates)] else [])"

definition validate_presentation_ids :: "analyzer \<Rightarrow> error + issue list" where
  "validate_presentation_ids a =
     (case map_of (files a) ''ppt/presentation.xml'' of
        None \<Rightarrow> Inr []
      | Some content \<Rightarrow>
          (case fromstring content of
             Inl e \<Rightarrow> if e = ParseError then Inr [] else Inl e
           | Inr root \<Rightarrow>
               Inr (duplicate_id_issue DUPLICATE_SLIDE_ID
                      (truthy_attrs
                         (findall_desc_child root (qname NS_p ''sldIdLst'') (qname NS_p ''sldId''))
                         ''id'')
                    @ duplicate_id_issue DUPLICATE_MASTER_ID
                      (truthy_attrs
                         (findall_desc_child root (qname NS_p ''sldMasterIdLst'')
                            (qname NS_p ''sldMasterId'')) ''id'')
                    @ validate_presentation_rels a
                    @ validate_sections root
                    @ validate_notes_master a root)))"

text \<open>\<^verbatim>\<open>_validate_noteslides\<close>: the body of its loop over the parts, and the loop.\<close>

definition validate_noteslide :: "analyzer \<Rightarrow> string \<times> entry \<Rightarrow> error + issue list" where
  "validate_noteslide a = (\<lambda>(name, content).
     if \<not> re_match_numbered ''ppt/notesSlides/notesSlide'' name then Inr []
     else
       (case fromstring content of
          Inl e \<Rightarrow> if e = ParseError then Inr [] else Inl e
        | Inr root \<Rightarrow>
            (let rels = dict_get (relations a) name [] in
             Inr ((case find_first (findall_desc root (qname NS_p ''clrMapOvr'')) of
                     None \<Rightarrow> []
                   | Some clr_map_ovr \<Rightarrow>
                       (case map_of (xattrib clr_map_ovr) (qname NS_r ''id'') of
                          None \<Rightarrow> []
                        | Some slide_ref \<Rightarrow>
                            if slide_ref \<noteq> [] \<and>
                               \<not> list_ex (\<lambda>r. rel_id r = slide_ref \<and> str_in ''slide'' (rel_type r))
                                    rels
                            then [NOTESLIDE_MISSING_SLIDE_REF name slide_ref] else []))
                  @ (if \<not> list_ex (\<lambda>r. str_in ''notesMaster'' (rel_type r)) rels
                     then [NOTESLIDE_NO_MASTER name] else [])))))"

definition validate_noteslides :: "analyzer \<Rightarrow> error + issue list" where
  "validate_noteslides a = collect (validate_noteslide a) (files a)"

text \<open>
  The expression \<^verbatim>\<open>int(e.text) if e is not None and e.text else 0\<close> of the
  application properties.
\<close>

definition declared_count :: "xml option \<Rightarrow> error + int" where
  "declared_count elem =
     (case elem of
        None \<Rightarrow> Inr 0
      | Some e \<Rightarrow>
          (case xtext e of
             None \<Rightarrow> Inr 0
           | Some t \<Rightarrow> if t \<noteq> [] then py_int t else Inr 0))"

text \<open>\<^verbatim>\<open>_validate_app_properties\<close>: \<^verbatim>\<open>int\<close> may raise \<^verbatim>\<open>ValueError\<close>.\<close>

definition validate_app_properties :: "analyzer \<Rightarrow> error + issue list" where
  "validate_app_properties a =
     (case map_of (files a) ''docProps/app.xml'' of
        None \<Rightarrow> Inr []
      | Some content \<Rightarrow>
          (case fromstring content of
             Inl e \<Rightarrow> if e = ParseError then Inr [] else Inl e
           | Inr root \<Rightarrow>
               (case declared_count (find_first (findall_desc root (qname NS_ep ''Slides''))) of
                  Inl e \<Rightarrow> Inl e
                | Inr declared_slides \<Rightarrow>
                    (case declared_count (find_first (findall_desc root (qname NS_ep ''Notes''))) of
                       Inl e \<Rightarrow> Inl e
                     | Inr declared_notes \<Rightarrow>
                         (let actual_slides =
                                int (length (filter (re_match_numbered ''ppt/slides/slide'')
                                               (map fst (files a))));
                              actual_notes =
                                int (length (filter (re_match_numbered ''ppt/notesSlides/notesSlide'')
                                               (map fst (files a))))
                          in Inr ((if declared_slides \<noteq> actual_slides
                                   then [APP_SLIDE_COUNT_MISMATCH declared_slides actual_slides]
                                   else [])
                                  @ (if declared_notes \<noteq> actual_notes
                                     then [APP_NOTE_COUNT_MISMATCH declared_notes actual_notes]
                                     else []))))))) "

text \<open>
  \<^verbatim>\<open>_validate_comments\<close>: the body of its loop over the parts, for the author ids
  read from \<^verbatim>\<open>ppt/commentAuthors.xml\<close>, and the method.
\<close>

definition validate_comment :: "string list \<Rightarrow> string \<times> entry \<Rightarrow> error + issue list" where
  "validate_comment author_ids = (\<lambda>(name, comment_content).
     if \<not> re_match_numbered ''ppt/comments/comment'' name then Inr []
     else
       (case fromstring comment_content of
          Inl e \<Rightarrow> if e = ParseError then Inr [INVALID_COMMENT_XML name] else Inl e
        | Inr comment_root \<Rightarrow>
            Inr (concat (map (\<lambda>author_id.
                   if author_id \<notin> set author_ids
                   then [COMMENT_INVALID_AUTHOR_ID name author_id] else [])
                 (truthy_attrs (findall_desc comment_root (qname NS_p ''cm'')) ''authorId'')))))"

definition validate_comments :: "analyzer \<Rightarrow> error + issue list" where
  "validate_comments a =
     (case map_of (files a) ''ppt/commentAuthors.xml'' of
        None \<Rightarrow> Inr []
      | Some content \<Rightarrow>
          (case fromstring content of
             Inl e \<Rightarrow> if e = ParseError then Inr [INVALID_COMMENT_AUTHORS_XML] else Inl e
           | Inr root \<Rightarrow>
               collect
                 (validate_comment (truthy_attrs (findall_desc root (qname NS_p ''cmAuthor'')) ''id''))
                 (files a)))"

text \<open>
  \<^verbatim>\<open>_validate_references\<close>: the two loops, then the five checks in the order the
  method calls them. The first check that raises ends the analysis, and the issues
  appended before it are lost with it.
\<close>

definition validate_references :: "analyzer \<Rightarrow> error + analyzer" where
  "validate_references a =
     (case validate_presentation_ids a of
        Inl e \<Rightarrow> Inl e
      | Inr presentation_issues \<Rightarrow>
          (case validate_noteslides a of
             Inl e \<Rightarrow> Inl e
           | Inr noteslide_issues \<Rightarrow>
               (case validate_app_properties a of
                  Inl e \<Rightarrow> Inl e
                | Inr app_issues \<Rightarrow>
                    (case validate_comments a of
                       Inl e \<Rightarrow> Inl e
                     | Inr comment_issues \<Rightarrow>
                         Inr (a\<lparr>issues := issues a
                                  @ reference_issues a
                                  @ content_type_issues a
                                  @ validate_layout_master_chain a
                                  @ presentation_issues
                                  @ noteslide_issues
                                  @ app_issues
                                  @ comment_issues\<rparr>)))))"

text \<open>\<^verbatim>\<open>PPTXAnalyzer(path).analyze()\<close> on an archive that opened.\<close>

definition analyze :: "(string \<times> entry) list \<Rightarrow> error + analyzer" where
  "analyze archive =
     (case parse_content_types (load_files archive init_analyzer) of
        Inl e \<Rightarrow> Inl e
      | Inr a1 \<Rightarrow>
          (case parse_all_rels a1 of
             Inl e \<Rightarrow> Inl e
           | Inr a2 \<Rightarrow> validate_references a2))"

section \<open>The data the comparator extracts\<close>

text \<open>
  The getters guard their parses like the checks above: a \<^verbatim>\<open>ParseError\<close> is
  caught and the part is passed over; any other exception of the parser leaves the
  getter, and with it the comparison that called it.
\<close>

text \<open>\<^verbatim>\<open>get_presentation_data\<close>: pairs are \<open>(id, rid)\<close>; a section is its name, its id and the ids of its slides.\<close>

record presentation_data =
  slideIdList :: "(string option \<times> string option) list"
  slideMasterIdList :: "(string option \<times> string option) list"
  notesMasterIdList :: "(string option \<times> string option) list"
  sections :: "(string \<times> string \<times> string option list) list"

definition id_rid_pairs :: "xml list \<Rightarrow> (string option \<times> string option) list" where
  "id_rid_pairs els =
     map (\<lambda>el. (map_of (xattrib el) ''id'', map_of (xattrib el) (qname NS_r ''id''))) els"

definition get_presentation_data :: "analyzer \<Rightarrow> error + presentation_data" where
  "get_presentation_data a =
     (let data = \<lparr>slideIdList = [], slideMasterIdList = [], notesMasterIdList = [], sections = []\<rparr>
      in case map_of (files a) ''ppt/presentation.xml'' of
           None \<Rightarrow> Inr data
         | Some content \<Rightarrow>
             (case fromstring content of
                Inl e \<Rightarrow> if e = ParseError then Inr data else Inl e
              | Inr root \<Rightarrow>
                  Inr \<lparr>slideIdList =
                         id_rid_pairs (findall_desc_child root (qname NS_p ''sldIdLst'')
                                         (qname NS_p ''sldId'')),
                       slideMasterIdList =
                         id_rid_pairs (findall_desc_child root (qname NS_p ''sldMasterIdLst'')
                                         (qname NS_p ''sldMasterId'')),
                       notesMasterIdList =
                         id_rid_pairs (findall_desc_child root (qname NS_p ''notesMasterIdLst'')
                                         (qname NS_p ''notesMasterId'')),
                       sections =
                         map (\<lambda>sect. (attr_get sect ''name'' [], attr_get sect ''id'' [],
                                       map (\<lambda>sldId. map_of (xattrib sldId) ''id'')
                                         (findall_desc_child sect (qname NS_p ''sldIdLst'')
                                            (qname NS_p ''sldId''))))
                           (findall_desc_child root (qname NS_p ''sectionLst'')
                              (qname NS_p ''section''))\<rparr>))"

text \<open>
  \<^verbatim>\<open>get_app_properties\<close>, its keys \<^verbatim>\<open>slides\<close>, \<^verbatim>\<open>notes\<close> and \<^verbatim>\<open>hidden_slides\<close>
  prefixed; \<^verbatim>\<open>int\<close> may raise \<^verbatim>\<open>ValueError\<close>.
\<close>

record app_properties =
  app_slides :: int
  app_notes :: int
  app_hidden_slides :: int

definition get_app_properties :: "analyzer \<Rightarrow> error + app_properties" where
  "get_app_properties a =
     (let data = \<lparr>app_slides = 0, app_notes = 0, app_hidden_slides = 0\<rparr>
      in case map_of (files a) ''docProps/app.xml'' of
           None \<Rightarrow> Inr data
         | Some content \<Rightarrow>
             (case fromstring content of
                Inl e \<Rightarrow> if e = ParseError then Inr data else Inl e
              | Inr root \<Rightarrow>
                  (case declared_count (find_first (findall_desc root (qname NS_ep ''Slides''))) of
                     Inl e \<Rightarrow> Inl e
                   | Inr s \<Rightarrow>
                       (case declared_count (find_first (findall_desc root (qname NS_ep ''Notes''))) of
                          Inl e \<Rightarrow> Inl e
                        | Inr n \<Rightarrow>
                            (case declared_count
                                    (find_first (findall_desc root (qname NS_ep ''HiddenSlides''))) of
                               Inl e \<Rightarrow> Inl e
                             | Inr h \<Rightarrow> Inr \<lparr>app_slides = s, app_notes = n, app_hidden_slides = h\<rparr>)))))"

text \<open>\<^verbatim>\<open>next((r for r in rels if cond), None)\<close>.\<close>

definition first_rel :: "(rel \<Rightarrow> bool) \<Rightarrow> rel list \<Rightarrow> rel option" where
  "first_rel cond rels = (case filter cond rels of [] \<Rightarrow> None | r # _ \<Rightarrow> Some r)"

text \<open>
  \<^verbatim>\<open>get_noteslides_data\<close>: a notes slide maps to its \<open>(slide_target, master_target)\<close>.
  The body of the loop over the parts, and the loop.
\<close>

definition noteslide_data ::
  "analyzer \<Rightarrow> string \<times> entry \<Rightarrow> error + (string \<times> string option \<times> string option) list" where
  "noteslide_data a = (\<lambda>(name, content).
     if \<not> re_match_numbered ''ppt/notesSlides/notesSlide'' name then Inr []
     else
       (case fromstring content of
          Inl e \<Rightarrow> if e = ParseError then Inr [] else Inl e
        | Inr root \<Rightarrow>
            (let rels = dict_get (relations a) name [];
                 slide_rel =
                   first_rel (\<lambda>r. str_in ''slide'' (rel_type r) \<and> rel_mode r \<noteq> ''External'') rels;
                 master_rel = first_rel (\<lambda>r. str_in ''notesMaster'' (rel_type r)) rels
             in Inr [(name,
                      (case slide_rel of None \<Rightarrow> None | Some r \<Rightarrow> rel_resolved r),
                      (case master_rel of None \<Rightarrow> None | Some r \<Rightarrow> rel_resolved r))])))"

definition get_noteslides_data ::
  "analyzer \<Rightarrow> error + (string \<times> string option \<times> string option) list" where
  "get_noteslides_data a = collect (noteslide_data a) (files a)"

text \<open>
  \<^verbatim>\<open>get_comments_data\<close>: the authors (of which only the id is read afterwards) and, for
  each comment file that parses, the number of its comments.
\<close>

record comments_data =
  authors :: "string option list"
  comments :: "(string \<times> nat) list"

definition comment_data :: "string \<times> entry \<Rightarrow> error + (string \<times> nat) list" where
  "comment_data = (\<lambda>(name, content).
     if \<not> re_match_numbered ''ppt/comments/comment'' name then Inr []
     else
       (case fromstring content of
          Inl e \<Rightarrow> if e = ParseError then Inr [] else Inl e
        | Inr root \<Rightarrow> Inr [(name, length (findall_desc root (qname NS_p ''cm'')))]))"

definition get_comments_data :: "analyzer \<Rightarrow> error + comments_data" where
  "get_comments_data a =
     (case (case map_of (files a) ''ppt/commentAuthors.xml'' of
              None \<Rightarrow> Inr []
            | Some content \<Rightarrow>
                (case fromstring content of
                   Inl e \<Rightarrow> if e = ParseError then Inr [] else Inl e
                 | Inr root \<Rightarrow>
                     Inr (map (\<lambda>author. map_of (xattrib author) ''id'')
                            (findall_desc root (qname NS_p ''cmAuthor''))))) of
        Inl e \<Rightarrow> Inl e
      | Inr author_list \<Rightarrow>
          (case collect comment_data (files a) of
             Inl e \<Rightarrow> Inl e
           | Inr comment_list \<Rightarrow> Inr \<lparr>authors = author_list, comments = comment_list\<rparr>))"

text \<open>\<^verbatim>\<open>get_hash_map\<close>: a digest maps to the names that have it.\<close>

definition get_hash_map :: "analyzer \<Rightarrow> (string \<times> string list) list" where
  "get_hash_map a =
     map (\<lambda>(h, named). (h, map fst named)) (group_by (\<lambda>(name, content). sha16 content) (files a))"

section \<open>The comparator (PPTXComparator)\<close>

datatype severity = INFO | LOW | MEDIUM | HIGH | CRITICAL

text \<open>
  The diff dictionaries, one constructor per shape, with the fields in the order the
  program writes them (\<^verbatim>\<open>'msg'\<close> left out). Only the count diff of the
  presentation's relationships computes its severity, so it carries it; \<open>diff_severity\<close>
  gives the entry \<^verbatim>\<open>'severity'\<close> of every shape and \<open>diff_type\<close> the entry \<^verbatim>\<open>'type'\<close>.
\<close>

datatype diff =
    FILE_REMOVED string
  | FILE_ADDED string
  | CONTENT_TYPE_REMOVED string
  | CONTENT_TYPE_CHANGED string string string
  | RELATION_REMOVED string string string
  | RELATION_TARGET_CHANGED string string string string
  | SLIDE_ID_LIST_CHANGED "(string option \<times> string option) list"
      "(string option \<times> string option) list"
  | PRES_RELS_TYPE_COUNT_CHANGED severity string nat nat "string list" "string list"
  | PRES_RELS_TOTAL_COUNT_CHANGED nat nat
  | SECTION_REMOVED string
  | SECTION_ADDED string
  | SECTION_SLIDES_CHANGED string "string option list" "string option list"
  | NOTESLIDE_REMOVED string
  | NOTESLIDE_ADDED string
  | NOTESLIDE_SLIDE_REF_CHANGED string "string option" "string option"
  | NOTESLIDE_MASTER_REF_CHANGED string "string option" "string option"
  | APP_SLIDE_COUNT_CHANGED int int
  | APP_NOTE_COUNT_CHANGED int int
  | APP_HIDDEN_SLIDE_COUNT_CHANGED int int
  | COMMENT_AUTHORS_CHANGED "string list" "string list"
  | COMMENT_FILE_REMOVED string
  | COMMENT_FILE_ADDED string
  | COMMENT_COUNT_CHANGED string nat nat
  | SLIDE_CLRMAPOVR_RID_CHANGED string "string option" "string option"
  | SLIDE_SHAPE_COUNT_CHANGED string nat nat
  | SLIDEMASTER_LAYOUT_COUNT_CHANGED string nat nat
  | SLIDELAYOUT_TYPE_CHANGED string string string
  | XML_CONTENT_CHANGED string string string
  | RENAMED_IDENTICAL_CONTENT string "string list" "string list"



text \<open>\<^verbatim>\<open>_compare_file_lists\<close>.\<close>

definition compare_file_lists :: "analyzer \<Rightarrow> analyzer \<Rightarrow> diff list" where
  "compare_file_lists corrupt repaired =
     (let c_files = map fst (files corrupt);
          r_files = map fst (files repaired);
          only_corrupt = filter (\<lambda>f. f \<notin> set r_files) c_files;
          only_repaired = filter (\<lambda>f. f \<notin> set c_files) r_files
      in map FILE_REMOVED only_corrupt @ map FILE_ADDED only_repaired)"

text \<open>\<^verbatim>\<open>_compare_content_types\<close>: only the overrides of the corrupt package are walked.\<close>

definition compare_content_types :: "analyzer \<Rightarrow> analyzer \<Rightarrow> diff list" where
  "compare_content_types corrupt repaired =
     (let c_ct = content_types corrupt;
          r_ct = content_types repaired
      in concat (map (\<lambda>(part, ctype).
           (case map_of r_ct part of
              None \<Rightarrow> [CONTENT_TYPE_REMOVED part]
            | Some r_ctype \<Rightarrow>
                if r_ctype \<noteq> ctype then [CONTENT_TYPE_CHANGED part ctype r_ctype] else [])) c_ct))"

text \<open>The dictionary comprehension \<^verbatim>\<open>{r['id']: r for r in rels}\<close>.\<close>

definition rel_map :: "rel list \<Rightarrow> (string \<times> rel) list" where
  "rel_map rels = fold (\<lambda>r d. AList.update (rel_id r) r d) rels []"

text \<open>\<^verbatim>\<open>_compare_relations\<close>: only the ids of the corrupt package are walked.\<close>

definition compare_relations :: "analyzer \<Rightarrow> analyzer \<Rightarrow> diff list" where
  "compare_relations corrupt repaired =
     (let c_rels = relations corrupt;
          r_rels = relations repaired;
          all_sources = remdups (map fst c_rels @ map fst r_rels)
      in concat (map (\<lambda>source.
           (let c_rel_map = rel_map (dict_get c_rels source []);
                r_rel_map = rel_map (dict_get r_rels source [])
            in concat (map (\<lambda>(rid, r).
                 (case map_of r_rel_map rid of
                    None \<Rightarrow> [RELATION_REMOVED source rid (rel_target r)]
                  | Some r' \<Rightarrow>
                      if rel_target r' \<noteq> rel_target r
                      then [RELATION_TARGET_CHANGED source rid (rel_target r) (rel_target r')]
                      else [])) c_rel_map))) all_sources))"

text \<open>\<^verbatim>\<open>_compare_presentation_rels_detailed\<close>.\<close>

definition compare_presentation_rels_detailed :: "analyzer \<Rightarrow> analyzer \<Rightarrow> diff list" where
  "compare_presentation_rels_detailed corrupt repaired =
     (let c_rels = dict_get (relations corrupt) ''ppt/presentation.xml'' [];
          r_rels = dict_get (relations repaired) ''ppt/presentation.xml'' [];
          c_by_type = group_by type_name c_rels;
          r_by_type = group_by type_name r_rels;
          all_types = remdups (map fst c_by_type @ map fst r_by_type)
      in concat (map (\<lambda>kind.
           (let c_count = length (dict_get c_by_type kind []);
                r_count = length (dict_get r_by_type kind [])
            in if c_count \<noteq> r_count then
                 [PRES_RELS_TYPE_COUNT_CHANGED
                    (if kind \<in> set [''image'', ''slideLayout'', ''notesSlide''] then CRITICAL else HIGH)
                    kind c_count r_count
                    (map rel_target (dict_get c_by_type kind []))
                    (map rel_target (dict_get r_by_type kind []))]
               else [])) all_types)
         @ (if length c_rels \<noteq> length r_rels
            then [PRES_RELS_TOTAL_COUNT_CHANGED (length c_rels) (length r_rels)] else []))"

text \<open>
  \<^verbatim>\<open>_compare_presentation_xml\<close>. The dictionaries \<^verbatim>\<open>{s['rid']: s['id']}\<close> are
  compared as mappings.
\<close>

definition slide_dict :: "presentation_data \<Rightarrow> (string option \<times> string option) list" where
  "slide_dict data = fold (\<lambda>(sid, rid) d. AList.update rid sid d) (slideIdList data) []"

definition compare_presentation_xml :: "analyzer \<Rightarrow> analyzer \<Rightarrow> error + diff list" where
  "compare_presentation_xml corrupt repaired =
     (case get_presentation_data corrupt of
        Inl e \<Rightarrow> Inl e
      | Inr c_data \<Rightarrow>
          (case get_presentation_data repaired of
             Inl e \<Rightarrow> Inl e
           | Inr r_data \<Rightarrow>
               (let c_slides = slide_dict c_data;
                    r_slides = slide_dict r_data
                in Inr ((if set c_slides \<noteq> set r_slides
                         then [SLIDE_ID_LIST_CHANGED c_slides r_slides] else [])
                        @ compare_presentation_rels_detailed corrupt repaired))))"

text \<open>
  \<^verbatim>\<open>_compare_sections\<close>: the dictionaries \<^verbatim>\<open>{s['name']: s}\<close>, here name to slide
  ids; \<open>section_diffs\<close> is what the method appends once it has the data of both packages.
\<close>

definition section_dict :: "presentation_data \<Rightarrow> (string \<times> string option list) list" where
  "section_dict data = fold (\<lambda>(name, sid, slideIds) d. AList.update name slideIds d) (sections data) []"

definition section_diffs :: "presentation_data \<Rightarrow> presentation_data \<Rightarrow> diff list" where
  "section_diffs c_data r_data =
     (let c_sections = section_dict c_data;
          r_sections = section_dict r_data
      in map SECTION_REMOVED (filter (\<lambda>name. name \<notin> set (map fst r_sections)) (map fst c_sections))
         @ map SECTION_ADDED (filter (\<lambda>name. name \<notin> set (map fst c_sections)) (map fst r_sections))
         @ concat (map (\<lambda>(name, c_ids).
             (case map_of r_sections name of
                None \<Rightarrow> []
              | Some r_ids \<Rightarrow>
                  if set c_ids \<noteq> set r_ids
                  then [SECTION_SLIDES_CHANGED name (remdups c_ids) (remdups r_ids)] else []))
             c_sections))"

definition compare_sections :: "analyzer \<Rightarrow> analyzer \<Rightarrow> error + diff list" where
  "compare_sections corrupt repaired =
     (case get_presentation_data corrupt of
        Inl e \<Rightarrow> Inl e
      | Inr c_data \<Rightarrow>
          (case get_presentation_data repaired of
             Inl e \<Rightarrow> Inl e
           | Inr r_data \<Rightarrow> Inr (section_diffs c_data r_data)))"

text \<open>
  \<^verbatim>\<open>_compare_noteslides\<close>; \<open>noteslide_diffs\<close> is what the method appends once it has
  the data of both packages.
\<close>

definition noteslide_diffs ::
  "(string \<times> string option \<times> string option) list \<Rightarrow>
   (string \<times> string option \<times> string option) list \<Rightarrow> diff list" where
  "noteslide_diffs c_notes r_notes =
     (map NOTESLIDE_REMOVED (filter (\<lambda>name. name \<notin> set (map fst r_notes)) (map fst c_notes))
      @ map NOTESLIDE_ADDED (filter (\<lambda>name. name \<notin> set (map fst c_notes)) (map fst r_notes))
      @ concat (map (\<lambda>(name, c_slide, c_master).
          (case map_of r_notes name of
             None \<Rightarrow> []
           | Some (r_slide, r_master) \<Rightarrow>
               (if c_slide \<noteq> r_slide then [NOTESLIDE_SLIDE_REF_CHANGED name c_slide r_slide] else [])
               @ (if c_master \<noteq> r_master
                  then [NOTESLIDE_MASTER_REF_CHANGED name c_master r_master] else [])))
          c_notes))"

definition compare_noteslides :: "analyzer \<Rightarrow> analyzer \<Rightarrow> error + diff list" where
  "compare_noteslides corrupt repaired =
     (case get_noteslides_data corrupt of
        Inl e \<Rightarrow> Inl e
      | Inr c_notes \<Rightarrow>
          (case get_noteslides_data repaired of
             Inl e \<Rightarrow> Inl e
           | Inr r_notes \<Rightarrow> Inr (noteslide_diffs c_notes r_notes)))"

text \<open>\<^verbatim>\<open>_compare_app_properties\<close>.\<close>

definition compare_app_properties :: "analyzer \<Rightarrow> analyzer \<Rightarrow> error + diff list" where
  "compare_app_properties corrupt repaired =
     (case get_app_properties corrupt of
        Inl e \<Rightarrow> Inl e
      | Inr c_props \<Rightarrow>
          (case get_app_properties repaired of
             Inl e \<Rightarrow> Inl e
           | Inr r_props \<Rightarrow>
               Inr ((if app_slides c_props \<noteq> app_slides r_props
                     then [APP_SLIDE_COUNT_CHANGED (app_slides c_props) (app_slides r_props)]
                     else [])
                    @ (if app_notes c_props \<noteq> app_notes r_props
                       then [APP_NOTE_COUNT_CHANGED (app_notes c_props) (app_notes r_props)]
                       else [])
                    @ (if app_hidden_slides c_props \<noteq> app_hidden_slides r_props
                       then [APP_HIDDEN_SLIDE_COUNT_CHANGED (app_hidden_slides c_props)
                               (app_hidden_slides r_props)]
                       else []))))"

text \<open>
  \<^verbatim>\<open>_compare_comments\<close>; \<open>comment_diffs\<close> is what the method appends once it has the
  data of both packages.
\<close>

definition author_id_set :: "comments_data \<Rightarrow> string list" where
  "author_id_set data =
     remdups (concat (map (\<lambda>aid. case aid of None \<Rightarrow> [] | Some i \<Rightarrow> if i \<noteq> [] then [i] else [])
                        (authors data)))"

definition comment_diffs :: "comments_data \<Rightarrow> comments_data \<Rightarrow> diff list" where
  "comment_diffs c_comments r_comments =
     (let c_author_ids = author_id_set c_comments;
          r_author_ids = author_id_set r_comments;
          c_comment_files = map fst (comments c_comments);
          r_comment_files = map fst (comments r_comments)
      in (if set c_author_ids \<noteq> set r_author_ids
          then [COMMENT_AUTHORS_CHANGED c_author_ids r_author_ids] else [])
         @ map COMMENT_FILE_REMOVED (filter (\<lambda>f. f \<notin> set r_comment_files) c_comment_files)
         @ map COMMENT_FILE_ADDED (filter (\<lambda>f. f \<notin> set c_comment_files) r_comment_files)
         @ concat (map (\<lambda>(f, c_count).
             (case map_of (comments r_comments) f of
                None \<Rightarrow> []
              | Some r_count \<Rightarrow>
                  if c_count \<noteq> r_count then [COMMENT_COUNT_CHANGED f c_count r_count] else []))
             (comments c_comments)))"

definition compare_comments :: "analyzer \<Rightarrow> analyzer \<Rightarrow> error + diff list" where
  "compare_comments corrupt repaired =
     (case get_comments_data corrupt of
        Inl e \<Rightarrow> Inl e
      | Inr c_comments \<Rightarrow>
          (case get_comments_data repaired of
             Inl e \<Rightarrow> Inl e
           | Inr r_comments \<Rightarrow> Inr (comment_diffs c_comments r_comments)))"

text \<open>
  The three structural sub-comparisons of \<^verbatim>\<open>_compare_xml_content\<close>. Each parses the
  part of the corrupt package, then the part of the repaired one, and returns without a
  diff at the first \<^verbatim>\<open>ParseError\<close>; any other exception of the parser leaves it.
\<close>

definition compare_slide_xml :: "string \<Rightarrow> entry \<Rightarrow> entry \<Rightarrow> error + diff list" where
  "compare_slide_xml filename c_content r_content =
     (case fromstring c_content of
        Inl e \<Rightarrow> if e = ParseError then Inr [] else Inl e
      | Inr c_root \<Rightarrow>
          (case fromstring r_content of
             Inl e \<Rightarrow> if e = ParseError then Inr [] else Inl e
           | Inr r_root \<Rightarrow>
               Inr ((case (find_first (findall_desc c_root (qname NS_p ''clrMapOvr'')),
                           find_first (findall_desc r_root (qname NS_p ''clrMapOvr''))) of
                       (Some c_clr, Some r_clr) \<Rightarrow>
                         (let c_rid = map_of (xattrib c_clr) (qname NS_r ''id'');
                              r_rid = map_of (xattrib r_clr) (qname NS_r ''id'')
                          in if c_rid \<noteq> r_rid then [SLIDE_CLRMAPOVR_RID_CHANGED filename c_rid r_rid]
                             else [])
                     | _ \<Rightarrow> [])
                    @ (let c_shapes = length (findall_desc c_root (qname NS_p ''sp''));
                           r_shapes = length (findall_desc r_root (qname NS_p ''sp''))
                       in if c_shapes \<noteq> r_shapes
                          then [SLIDE_SHAPE_COUNT_CHANGED filename c_shapes r_shapes] else []))))"

definition compare_slidemaster_xml :: "string \<Rightarrow> entry \<Rightarrow> entry \<Rightarrow> error + diff list" where
  "compare_slidemaster_xml filename c_content r_content =
     (case fromstring c_content of
        Inl e \<Rightarrow> if e = ParseError then Inr [] else Inl e
      | Inr c_root \<Rightarrow>
          (case fromstring r_content of
             Inl e \<Rightarrow> if e = ParseError then Inr [] else Inl e
           | Inr r_root \<Rightarrow>
               (let c_layouts = length (findall_desc_child c_root (qname NS_p ''sldLayoutIdLst'')
                                          (qname NS_p ''sldLayoutId''));
                    r_layouts = length (findall_desc_child r_root (qname NS_p ''sldLayoutIdLst'')
                                          (qname NS_p ''sldLayoutId''))
                in Inr (if c_layouts \<noteq> r_layouts
                        then [SLIDEMASTER_LAYOUT_COUNT_CHANGED filename c_layouts r_layouts]
                        else []))))"

definition compare_slidelayout_xml :: "string \<Rightarrow> entry \<Rightarrow> entry \<Rightarrow> error + diff list" where
  "compare_slidelayout_xml filename c_content r_content =
     (case fromstring c_content of
        Inl e \<Rightarrow> if e = ParseError then Inr [] else Inl e
      | Inr c_root \<Rightarrow>
          (case fromstring r_content of
             Inl e \<Rightarrow> if e = ParseError then Inr [] else Inl e
           | Inr r_root \<Rightarrow>
               (let c_type = attr_get c_root ''type'' [];
                    r_type = attr_get r_root ''type'' []
                in Inr (if c_type \<noteq> r_type then [SLIDELAYOUT_TYPE_CHANGED filename c_type r_type]
                        else []))))"

text \<open>
  \<^verbatim>\<open>_compare_xml_content\<close>: \<open>compare_xml_part\<close> is the body of its loop, for a part
  that both packages have. The program iterates over the set of the common names; the
  model goes over the parts of the corrupt package in their order, which only decides
  the exception that is raised when several parts raise.
\<close>

definition compare_xml_part :: "string \<Rightarrow> entry \<Rightarrow> entry \<Rightarrow> error + diff list" where
  "compare_xml_part f c_content r_content =
     (if \<not> endswith f ''.xml'' then Inr []
      else if sha16 c_content \<noteq> sha16 r_content then
        (if re_match_numbered ''ppt/slides/slide'' f
         then compare_slide_xml f c_content r_content
         else if re_match_numbered ''ppt/slideMasters/slideMaster'' f
         then compare_slidemaster_xml f c_content r_content
         else if re_match_numbered ''ppt/slideLayouts/slideLayout'' f
         then compare_slidelayout_xml f c_content r_content
         else if f = ''ppt/presentation.xml'' then Inr []
         else Inr [XML_CONTENT_CHANGED f (sha16 c_content) (sha16 r_content)])
      else Inr [])"

definition compare_xml_content :: "analyzer \<Rightarrow> analyzer \<Rightarrow> error + diff list" where
  "compare_xml_content corrupt repaired =
     collect (\<lambda>(f, c_content).
        (case map_of (files repaired) f of
           None \<Rightarrow> Inr []
         | Some r_content \<Rightarrow> compare_xml_part f c_content r_content)) (files corrupt)"

text \<open>\<^verbatim>\<open>_detect_hash_matches\<close>.\<close>

definition detect_hash_matches :: "analyzer \<Rightarrow> analyzer \<Rightarrow> diff list" where
  "detect_hash_matches corrupt repaired =
     (let c_hashes = get_hash_map corrupt;
          r_hashes = get_hash_map repaired
      in concat (map (\<lambda>(h, c_files).
           (case map_of r_hashes h of
              None \<Rightarrow> []
            | Some r_files \<Rightarrow>
                if set c_files \<noteq> set r_files then [RENAMED_IDENTICAL_CONTENT h c_files r_files]
                else [])) c_hashes))"

text \<open>
  \<^verbatim>\<open>compare\<close>: the ten sub-comparisons in order. The first that raises ends the
  comparison.
\<close>

definition compare :: "analyzer \<Rightarrow> analyzer \<Rightarrow> error + diff list" where
  "compare corrupt repaired =
     (case compare_presentation_xml corrupt repaired of
        Inl e \<Rightarrow> Inl e
      | Inr presentation_diffs \<Rightarrow>
          (case compare_sections corrupt repaired of
             Inl e \<Rightarrow> Inl e
           | Inr sections_diffs \<Rightarrow>
               (case compare_noteslides corrupt repaired of
                  Inl e \<Rightarrow> Inl e
                | Inr noteslides_diffs \<Rightarrow>
                    (case compare_app_properties corrupt repaired of
                       Inl e \<Rightarrow> Inl e
                     | Inr app_diffs \<Rightarrow>
                         (case compare_comments corrupt repaired of
                            Inl e \<Rightarrow> Inl e
                          | Inr comments_diffs \<Rightarrow>
                              (case compare_xml_content corrupt repaired of
                                 Inl e \<Rightarrow> Inl e
                               | Inr xml_diffs \<Rightarrow>
                                   Inr (compare_file_lists corrupt repaired
                                        @ compare_content_types corrupt repaired
                                        @ compare_relations corrupt repaired
                                        @ presentation_diffs
                                        @ sections_diffs
                                        @ noteslides_diffs
                                        @ app_diffs
                                        @ comments_diffs
                                        @ xml_diffs
                                        @ detect_hash_matches corrupt repaired)))))))"

section \<open>The hypothesis generator\<close>








section \<open>Notions used in the statements\<close>

text \<open>
  The keys of a dictionary filled in the order of a list: every value once, at the place
  of its first occurrence.
\<close>

definition first_seen :: "'a list \<Rightarrow> 'a list" where
  "first_seen xs = rev (remdups (rev xs))"

text \<open>
  What \<^verbatim>\<open>_parse_rels\<close> stores as \<^verbatim>\<open>'resolved'\<close> for a relationship of the source
  part \<open>source\<close>: the literal target when the mode is \<open>External\<close>, the resolver's
  result otherwise.
\<close>

definition parsed_rel :: "string \<Rightarrow> rel \<Rightarrow> bool" where
  "parsed_rel source r =
     (\<exists>p. rel_resolved r = Some p \<and>
          (if rel_mode r = ''External'' then p = rel_target r
           else resolve_target source (rel_target r) = Inr p))"

text \<open>
  What holds of every state the analysis builds: the dictionaries have distinct keys
  and every stored relationship is as parsed.
\<close>

definition model_invariant :: "analyzer \<Rightarrow> bool" where
  "model_invariant a =
     (distinct (map fst (files a)) \<and> distinct (map fst (content_types a)) \<and>
      distinct (map fst (relations a)) \<and>
      (\<forall>(source, rels) \<in> set (relations a). \<forall>r \<in> set rels. parsed_rel source r))"

text \<open>The issues recorded before validation starts.\<close>

definition early_issue :: "issue \<Rightarrow> bool" where
  "early_issue i = (case i of ISSUE_CRITICAL \<Rightarrow> True | ISSUE_ERROR p \<Rightarrow> True | _ \<Rightarrow> False)"

text \<open>
  A loaded part named like a relationship descriptor, other than the package-root
  descriptor, with no \<open>_rels\<close> segment in its path and a content that parses.
\<close>

definition unowned_descriptor :: "analyzer \<Rightarrow> string \<Rightarrow> bool" where
  "unowned_descriptor a name =
     (endswith name ''.rels'' \<and> name \<noteq> ''_rels/.rels'' \<and>
      ''_rels'' \<notin> set (str_split (CHR ''/'') name) \<and>
      (\<exists>content root. map_of (files a) name = Some content \<and> etree content = Parsed root))"

text \<open>The relationships of a disallowed kind in the presentation's descriptor.\<close>

definition misplaced_rels :: "analyzer \<Rightarrow> rel list" where
  "misplaced_rels a =
     filter (\<lambda>r. type_name r \<in> set (map fst INVALID_PRES_REL_TYPES))
       (dict_get (relations a) ''ppt/presentation.xml'' [])"

text \<open>The two issue shapes of the first loop of \<^verbatim>\<open>_validate_references\<close>.\<close>

definition reference_issue :: "issue \<Rightarrow> bool" where
  "reference_issue i =
     (case i of DUPLICATE_RID s r c \<Rightarrow> True | BROKEN_REF s t r \<Rightarrow> True | _ \<Rightarrow> False)"


text \<open>The \<^verbatim>\<open>DUPLICATE_RID\<close> issues of one source and one relationship id.\<close>

definition duplicate_rid_of :: "string \<Rightarrow> string \<Rightarrow> issue \<Rightarrow> bool" where
  "duplicate_rid_of source rid i =
     (case i of DUPLICATE_RID s r c \<Rightarrow> s = source \<and> r = rid | _ \<Rightarrow> False)"

text \<open>A relationship of a kind listed in \<^verbatim>\<open>INVALID_PRES_REL_TYPES\<close>.\<close>

abbreviation (input) disallowed :: "rel \<Rightarrow> bool" where
  "disallowed r \<equiv> type_name r \<in> set (map fst INVALID_PRES_REL_TYPES)"







section \<open>Sample packages\<close>

text \<open>
  Archive entries for the concrete inputs of the witnesses and counterexamples: a
  \<^verbatim>\<open>Relationship\<close> element, a relationship descriptor, an entry that is not XML, a
  content-type manifest with defaults for \<open>xml\<close> and \<open>png\<close>, and an empty presentation.
\<close>

definition relationship_element :: "string \<Rightarrow> string \<Rightarrow> string \<Rightarrow> string option \<Rightarrow> xml" where
  "relationship_element rid rtype target mode =
     Element (qname NS_rel ''Relationship'')
       ([(''Id'', rid), (''Type'', rtype), (''Target'', target)]
        @ (case mode of None \<Rightarrow> [] | Some m \<Rightarrow> [(''TargetMode'', m)])) None []"

definition relationships_entry :: "string \<Rightarrow> xml list \<Rightarrow> entry" where
  "relationships_entry digest els =
     \<lparr>sha16 = digest, etree = Parsed (Element (qname NS_rel ''Relationships'') [] None els)\<rparr>"

definition binary_entry :: "string \<Rightarrow> entry" where
  "binary_entry digest = \<lparr>sha16 = digest, etree = NotWellFormed\<rparr>"

definition REL_TYPES_image :: string where
  "REL_TYPES_image = ''http://schemas.openxmlformats.org/officeDocument/2006/relationships/image''"


definition presentation_entry :: entry where
  "presentation_entry =
     \<lparr>sha16 = ''c1'', etree = Parsed (Element (qname NS_p ''presentation'') [] None [])\<rparr>"

text \<open>An external hyperlink relationship, as an element and as \<^verbatim>\<open>_parse_rels\<close> stores it.\<close>

definition external_link :: xml where
  "external_link =
     relationship_element ''rId7'' ''t/hyperlink'' ''http://example.com/'' (Some ''External'')"

definition external_rel :: rel where
  "external_rel =
     \<lparr>rel_id = ''rId7'', rel_type = ''t/hyperlink'', rel_target = ''http://example.com/'',
      rel_mode = ''External'', rel_resolved = Some ''http://example.com/''\<rparr>"

text \<open>
  The packages of the scenario of the misplaced image: \<open>archive_A\<close> has one relationship
  of kind image, to \<open>media/pic1.png\<close>, in the descriptor of the presentation;
  \<open>archive_B\<close> is the same package without that relationship. The \<open>_damaged\<close> pair
  is the same scenario with a part \<open>ppt/presentation.xml\<close> that is not well-formed
  XML. Each \<open>model_\<close> state is what the analysis returns for its archive.
\<close>

definition image_rel :: "string \<Rightarrow> string \<Rightarrow> rel" where
  "image_rel rid name =
     \<lparr>rel_id = rid, rel_type = REL_TYPES_image, rel_target = ''media/'' @ name,
      rel_mode = ''Internal'', rel_resolved = Some (''ppt/media/'' @ name)\<rparr>"

definition image_reason :: string where
  "image_reason = ''Images should be in slide/layout/master .rels, not presentation.xml.rels''"









text \<open>A presentation whose descriptor holds two image relationships.\<close>

definition archive_two_images :: "(string \<times> entry) list" where
  "archive_two_images =
     [(''ppt/presentation.xml'', presentation_entry),
      (''ppt/_rels/presentation.xml.rels'',
         relationships_entry ''f0''
           [relationship_element ''rId1'' REL_TYPES_image ''media/pic1.png'' None,
            relationship_element ''rId2'' REL_TYPES_image ''media/pic2.png'' None])]"


definition model_two_images :: analyzer where
  "model_two_images =
     \<lparr>files = archive_two_images, content_types = [], default_types = [],
      relations = [(''ppt/presentation.xml'',
                    [image_rel ''rId1'' ''pic1.png'', image_rel ''rId2'' ''pic2.png''])],
      issues =
        [ISSUE_CRITICAL,
         BROKEN_REF ''ppt/presentation.xml'' ''ppt/media/pic1.png'' ''rId1'',
         BROKEN_REF ''ppt/presentation.xml'' ''ppt/media/pic2.png'' ''rId2'',
         MISSING_CONTENT_TYPE ''ppt/presentation.xml'',
         INVALID_PRESENTATION_RELS
           [\<lparr>ir_rid = ''rId1'', ir_type = ''image'', ir_target = ''media/pic1.png'',
             ir_reason = image_reason\<rparr>,
            \<lparr>ir_rid = ''rId2'', ir_type = ''image'', ir_target = ''media/pic2.png'',
             ir_reason = image_reason\<rparr>],
         PRES_RELS_INVALID ''image'' 2 [''rId1'', ''rId2'']
           [''media/pic1.png'', ''media/pic2.png'']]\<rparr>"

text \<open>
  A package-root descriptor in which the id \<open>rId1\<close> occurs twice, and one with a
  relationship whose target is empty and one whose target is not in the archive.
\<close>

definition archive_duplicate :: "(string \<times> entry) list" where
  "archive_duplicate =
     [(''_rels/.rels'',
         relationships_entry ''d0''
           [relationship_element ''rId1'' ''t/a'' ''a.xml'' None,
            relationship_element ''rId1'' ''t/b'' ''b.xml'' None,
            relationship_element ''rId2'' ''t/c'' ''a.xml'' None]),
      (''a.xml'', binary_entry ''d1''),
      (''b.xml'', binary_entry ''d2'')]"

definition duplicate_rels :: "rel list" where
  "duplicate_rels =
     [\<lparr>rel_id = ''rId1'', rel_type = ''t/a'', rel_target = ''a.xml'', rel_mode = ''Internal'',
       rel_resolved = Some ''a.xml''\<rparr>,
      \<lparr>rel_id = ''rId1'', rel_type = ''t/b'', rel_target = ''b.xml'', rel_mode = ''Internal'',
       rel_resolved = Some ''b.xml''\<rparr>,
      \<lparr>rel_id = ''rId2'', rel_type = ''t/c'', rel_target = ''a.xml'', rel_mode = ''Internal'',
       rel_resolved = Some ''a.xml''\<rparr>]"

definition model_duplicate :: analyzer where
  "model_duplicate =
     \<lparr>files = archive_duplicate, content_types = [], default_types = [],
      relations = [([], duplicate_rels)],
      issues = [ISSUE_CRITICAL, DUPLICATE_RID [] ''rId1'' 2,
                MISSING_CONTENT_TYPE ''a.xml'', MISSING_CONTENT_TYPE ''b.xml'']\<rparr>"

definition archive_empty_target :: "(string \<times> entry) list" where
  "archive_empty_target =
     [(''_rels/.rels'',
         relationships_entry ''e0''
           [relationship_element ''rId1'' ''t/a'' [] None,
            relationship_element ''rId2'' ''t/b'' ''missing.xml'' None])]"

definition empty_target_rels :: "rel list" where
  "empty_target_rels =
     [\<lparr>rel_id = ''rId1'', rel_type = ''t/a'', rel_target = [], rel_mode = ''Internal'',
       rel_resolved = Some []\<rparr>,
      \<lparr>rel_id = ''rId2'', rel_type = ''t/b'', rel_target = ''missing.xml'', rel_mode = ''Internal'',
       rel_resolved = Some ''missing.xml''\<rparr>]"

definition model_empty_target :: analyzer where
  "model_empty_target =
     \<lparr>files = archive_empty_target, content_types = [], default_types = [],
      relations = [([], empty_target_rels)],
      issues = [ISSUE_CRITICAL, BROKEN_REF [] ''missing.xml'' ''rId2'']\<rparr>"









text \<open>
  Two packages with the same slide part: not well-formed XML in the first, and with a
  declaration of an encoding that Python does not know in the second. The analysis does
  not parse slides, and completes on both.
\<close>

definition unknown_encoding_entry :: "string \<Rightarrow> entry" where
  "unknown_encoding_entry digest = \<lparr>sha16 = digest, etree = UnknownEncoding\<rparr>"

definition archive_slide_damaged :: "(string \<times> entry) list" where
  "archive_slide_damaged = [(''ppt/slides/slide1.xml'', binary_entry ''e1'')]"

definition archive_slide_unknown_encoding :: "(string \<times> entry) list" where
  "archive_slide_unknown_encoding = [(''ppt/slides/slide1.xml'', unknown_encoding_entry ''e2'')]"

definition model_slide_damaged :: analyzer where
  "model_slide_damaged =
     \<lparr>files = archive_slide_damaged, content_types = [], default_types = [], relations = [],
      issues = [ISSUE_CRITICAL, MISSING_CONTENT_TYPE ''ppt/slides/slide1.xml'']\<rparr>"

definition model_slide_unknown_encoding :: analyzer where
  "model_slide_unknown_encoding =
     \<lparr>files = archive_slide_unknown_encoding, content_types = [], default_types = [],
      relations = [],
      issues = [ISSUE_CRITICAL, MISSING_CONTENT_TYPE ''ppt/slides/slide1.xml'']\<rparr>"

section \<open>Properties of the resolver\<close>

lemma str_split_nonempty: "str_split sep s \<noteq> []"
  by (induction s) (auto split: list.splits)

lemma resolve_loop_total: "\<exists>r. resolve_loop acc ps = Inr r"
  by (induction ps arbitrary: acc) (auto simp: py_pop_def)

lemma resolve_loop_spec: "resolve_loop acc ps = Inr (spec_normalize acc ps)"
  by (induction ps arbitrary: acc) (auto simp: py_pop_def)

lemma resolve_loop_dotdots:
  "resolve_loop acc (replicate n ''..'' @ ps) = resolve_loop (take (length acc - n) acc) ps"
proof (induction n arbitrary: acc)
  case 0
  then show ?case by simp
next
  case (Suc n)
  show ?case
  proof (cases "acc = []")
    case True
    with Suc show ?thesis by simp
  next
    case False
    have "take (length (butlast acc) - n) (butlast acc) = take (length acc - Suc n) acc"
      by (simp add: butlast_conv_take min_def)
    with False Suc show ?thesis by (simp add: py_pop_def)
  qed
qed

lemma str_split_sep_free:
  "sep \<notin> set a \<Longrightarrow> str_split sep (a @ sep # b) = a # str_split sep b"
  by (induction a) (auto split: list.splits)

lemma str_split_no_sep: "x \<in> set (str_split sep s) \<Longrightarrow> sep \<notin> set x"
  by (induction s arbitrary: x) (auto split: list.splits if_splits)

lemma str_split_join:
  "xs \<noteq> [] \<Longrightarrow> (\<And>x. x \<in> set xs \<Longrightarrow> sep \<notin> set x) \<Longrightarrow>
   str_split sep (str_join [sep] xs @ sep # b) = xs @ str_split sep b"
proof (induction "[sep]" xs rule: str_join.induct)
  case 1
  then show ?case by simp
next
  case (2 x)
  then show ?case by (simp add: str_split_sep_free)
next
  case (3 x y ys)
  have "str_split sep (str_join [sep] (y # ys) @ sep # b) = (y # ys) @ str_split sep b"
    using 3 by simp
  moreover have "sep \<notin> set x" using 3 by simp
  ultimately show ?case by (simp add: str_split_sep_free)
qed

lemma str_split_dotdots:
  "str_split (CHR ''/'') (concat (replicate n ''../'') @ t) =
   replicate n ''..'' @ str_split (CHR ''/'') t"
  by (induction n) auto

text \<open>
  Whatever a run of segments does to the accumulator, it leaves one that is no longer
  than the accumulator before plus the number of segments read.
\<close>

lemma resolve_loop_append:
  "\<exists>acc'. length acc' \<le> length acc + length xs \<and>
     (\<forall>ys. resolve_loop acc (xs @ ys) = resolve_loop acc' ys)"
proof (induction xs arbitrary: acc)
  case Nil
  show ?case by (rule exI [of _ acc]) simp
next
  case (Cons x xs)
  show ?case
  proof (cases "x = ''..''")
    case True
    obtain acc' where a: "length acc' \<le> length (butlast acc) + length xs"
        "\<forall>ys. resolve_loop (butlast acc) (xs @ ys) = resolve_loop acc' ys"
      using Cons [of "butlast acc"] by blast
    show ?thesis
      using True a by (intro exI [of _ acc']) (auto simp: py_pop_def)
  next
    case False
    show ?thesis
    proof (cases "x \<noteq> [] \<and> x \<noteq> ''.''")
      case True
      obtain acc' where a: "length acc' \<le> length (acc @ [x]) + length xs"
        "\<forall>ys. resolve_loop (acc @ [x]) (xs @ ys) = resolve_loop acc' ys"
        using Cons [of "acc @ [x]"] by blast
      show ?thesis
        using True False a by (intro exI [of _ acc']) auto
    next
      case nt: False
      obtain acc' where a: "length acc' \<le> length acc + length xs"
        "\<forall>ys. resolve_loop acc (xs @ ys) = resolve_loop acc' ys"
        using Cons [of acc] by blast
      show ?thesis
        using nt False a by (intro exI [of _ acc']) auto
    qed
  qed
qed

lemma resolve_target_total: "\<exists>path. resolve_target source target = Inr path"
proof -
  obtain r where
    "resolve_loop [] (str_split (CHR ''/'') (base_of source @ ''/'' @ target)) = Inr r"
    using resolve_loop_total by blast
  then show ?thesis by (simp add: resolve_target_def Let_def)
qed

lemma resolve_target_absorbs:
  assumes b: "base_of source \<noteq> []"
    and n: "length (butlast (str_split (CHR ''/'') source)) \<le> n"
  shows "\<exists>r. resolve_loop [] (str_split (CHR ''/'') t) = Inr r \<and>
    resolve_target source (concat (replicate n ''../'') @ t) = Inr (str_join ''/'' r)"
proof -
  let ?segs = "butlast (str_split (CHR ''/'') source)"
  have segs: "?segs \<noteq> []" using b by (auto simp: base_of_def)
  then have "0 < length ?segs" by (rule length_greater_0_conv [THEN iffD2])
  then have n0: "n \<noteq> 0" using n by linarith
  then obtain m where m: "n = Suc m" by (cases n) auto
  have src: "source \<noteq> []" using segs by auto
  have nostart: "\<not> startswith (concat (replicate n ''../'') @ t) ''/''"
    by (simp add: m startswith_def)
  have nosep: "\<And>x. x \<in> set ?segs \<Longrightarrow> CHR ''/'' \<notin> set x"
    using str_split_no_sep by (metis in_set_butlastD)
  have split: "str_split (CHR ''/'') (base_of source @ ''/'' @ concat (replicate n ''../'') @ t)
      = ?segs @ replicate n ''..'' @ str_split (CHR ''/'') t"
    using str_split_join [OF segs nosep] by (simp add: base_of_def str_split_dotdots)
  obtain acc' where a: "length acc' \<le> length ?segs"
      "\<forall>ys. resolve_loop [] (?segs @ ys) = resolve_loop acc' ys"
    using resolve_loop_append [of "[]" ?segs] by auto
  have "resolve_loop [] (?segs @ replicate n ''..'' @ str_split (CHR ''/'') t)
      = resolve_loop [] (str_split (CHR ''/'') t)"
    using a n by (simp add: resolve_loop_dotdots)
  moreover obtain r where r: "resolve_loop [] (str_split (CHR ''/'') t) = Inr r"
    using resolve_loop_total by blast
  ultimately show ?thesis
    using b src nostart split by (auto simp: resolve_target_def Let_def)
qed

lemma resolve_target_absolute:
  "startswith target ''/'' \<Longrightarrow> resolve_target source target = Inr (lstrip target (CHR ''/''))"
  by (simp add: resolve_target_def)

lemma resolve_target_root_level:
  "\<not> startswith target ''/'' \<Longrightarrow> base_of source = [] \<Longrightarrow> resolve_target source target = Inr target"
  by (simp add: resolve_target_def Let_def)

text \<open>
  Claim C3, as amended. The resolver satisfies the three equations of the specification:
  \<open>resolve("a/b/c.xml", "../d.xml") = "a/d.xml"\<close>, \<open>resolve("", "x.xml") = "x.xml"\<close> and
  \<open>resolve("a/b.xml", "/c.xml") = "c.xml"\<close>. For every source and target it returns a
  path and never raises (the \<^verbatim>\<open>pop\<close> of the loop is never reached on an empty
  list). Excess \<open>..\<close> segments are absorbed where the resolver normalizes, that is for
  a target that is not absolute and a source with a containing directory: in the loop,
  \<open>k\<close> more \<open>..\<close> segments than the accumulator holds leave the empty accumulator;
  and a target that starts with at least as many \<open>../\<close> as the directory of the
  source has segments resolves to what the rest of the target gives from the empty
  accumulator. Where the resolver does not normalize, the \<open>..\<close> segments of the target
  are returned as they are: an absolute target only loses its leading \<open>/\<close>, and with
  an empty source, or a source at the package root, the target is returned unchanged.
\<close>

theorem resolve_target_examples_absorb:
  "resolve_target ''a/b/c.xml'' ''../d.xml'' = Inr ''a/d.xml'' \<and>
   resolve_target '''' ''x.xml'' = Inr ''x.xml'' \<and>
   resolve_target ''a/b.xml'' ''/c.xml'' = Inr ''c.xml'' \<and>
   (\<exists>path. resolve_target source target = Inr path) \<and>
   resolve_loop acc (replicate (length acc + k) ''..'' @ ps) = resolve_loop [] ps \<and>
   (base_of source \<noteq> [] \<and> length (butlast (str_split (CHR ''/'') source)) \<le> n \<longrightarrow>
      (\<exists>r. resolve_loop [] (str_split (CHR ''/'') t) = Inr r \<and>
           resolve_target source (concat (replicate n ''../'') @ t) = Inr (str_join ''/'' r))) \<and>
   (startswith target ''/'' \<longrightarrow>
      resolve_target source target = Inr (lstrip target (CHR ''/''))) \<and>
   (\<not> startswith target ''/'' \<and> base_of source = [] \<longrightarrow>
      resolve_target source target = Inr target)"
proof -
  have e1: "resolve_target ''a/b/c.xml'' ''../d.xml'' = Inr ''a/d.xml''"
    by (simp add: resolve_target_def base_of_def startswith_def py_pop_def)
  have e2: "resolve_target '''' ''x.xml'' = Inr ''x.xml''"
    by (simp add: resolve_target_def startswith_def)
  have e3: "resolve_target ''a/b.xml'' ''/c.xml'' = Inr ''c.xml''"
    by (simp add: resolve_target_def startswith_def lstrip_def)
  have e5: "resolve_loop acc (replicate (length acc + k) ''..'' @ ps) = resolve_loop [] ps"
    by (simp add: resolve_loop_dotdots)
  show ?thesis
    using e1 e2 e3 e5 resolve_target_total [of source target]
      resolve_target_absorbs [of source n t]
      resolve_target_absolute [of target source] resolve_target_root_level [of target source]
    by blast
qed

text \<open>
  Witness for C3: the source \<open>a/b.xml\<close> has a one-segment directory; the target
  \<open>../../x.xml\<close> climbs twice and resolves to \<open>x.xml\<close>, and the absolute target
  \<open>/../x\<close> keeps its \<open>..\<close>; so does the target \<open>../x\<close> from the root-level source
  \<open>b.xml\<close>.
\<close>

theorem resolve_target_examples_absorb_witness:
  "base_of ''a/b.xml'' \<noteq> [] \<and>
   length (butlast (str_split (CHR ''/'') ''a/b.xml'')) \<le> 2 \<and>
   resolve_target ''a/b.xml'' ''../../x.xml'' = Inr ''x.xml'' \<and>
   startswith ''/../x'' ''/'' \<and>
   resolve_target ''a/b.xml'' ''/../x'' = Inr ''../x'' \<and>
   \<not> startswith ''../x'' ''/'' \<and> base_of ''b.xml'' = [] \<and>
   resolve_target ''b.xml'' ''../x'' = Inr ''../x''"
  using resolve_target_examples_absorb
    [where source = "''a/b.xml''" and n = 2 and t = "''x.xml''" and target = "''/../x''"]
    resolve_target_examples_absorb
    [where source = "''b.xml''" and target = "''../x''"]
  by (simp add: base_of_def numeral_2_eq_2 startswith_def lstrip_def)

text \<open>
  Counterexample to C3 as stated: excess \<open>..\<close> segments are not absorbed for every
  source and target. From the root-level source \<open>b.xml\<close> and from the empty source the
  target \<open>../x\<close> comes back unchanged, and from \<open>a/b.xml\<close> the absolute target
  \<open>/../x\<close> comes back as \<open>../x\<close>: the returned path still has the segment \<open>..\<close>.
\<close>

theorem resolve_target_dotdot_kept_counterexample:
  "resolve_target ''b.xml'' ''../x'' = Inr ''../x'' \<and>
   resolve_target '''' ''../x'' = Inr ''../x'' \<and>
   resolve_target ''a/b.xml'' ''/../x'' = Inr ''../x'' \<and>
   ''..'' \<in> set (str_split (CHR ''/'') ''../x'')"
  by (simp add: resolve_target_def base_of_def startswith_def lstrip_def)

text \<open>
  Claim C4, as amended. For every non-empty source and every target that does not start
  with \<open>/\<close>: when the containing directory of the source is not empty, the resolver
  returns the concatenation of that directory, \<open>/\<close> and the target, normalized segment
  by segment as the specification says (\<^const>\<open>spec_resolve\<close>); when the containing
  directory is empty (the source part sits at the package root), it returns the target
  unchanged, without normalization.
\<close>

theorem resolve_target_relative:
  "source \<noteq> [] \<Longrightarrow> \<not> startswith target ''/'' \<Longrightarrow>
   resolve_target source target =
     Inr (if base_of source = [] then target else spec_resolve source target)"
  by (simp add: resolve_target_def spec_resolve_def Let_def resolve_loop_spec)

text \<open>Witness for C4: a source two directories deep and a target that climbs one.\<close>

theorem resolve_target_relative_witness:
  "''a/b/c.xml'' \<noteq> [] \<and> \<not> startswith ''../d.xml'' ''/'' \<and> base_of ''a/b/c.xml'' = ''a/b'' \<and>
   resolve_target ''a/b/c.xml'' ''../d.xml'' = Inr ''a/d.xml''"
  using resolve_target_relative [of "''a/b/c.xml''" "''../d.xml''"]
  by (simp add: startswith_def base_of_def spec_resolve_def)

text \<open>
  Counterexample to C4 as stated: for the root-level source \<open>b.xml\<close> and the target
  \<open>./x.xml\<close> the normalization of the specification gives \<open>x.xml\<close>, and the resolver
  returns \<open>./x.xml\<close>.
\<close>

theorem resolve_target_root_level_counterexample:
  "''b.xml'' \<noteq> [] \<and> \<not> startswith ''./x.xml'' ''/'' \<and>
   spec_resolve ''b.xml'' ''./x.xml'' = ''x.xml'' \<and>
   resolve_target ''b.xml'' ''./x.xml'' = Inr ''./x.xml'' \<and>
   resolve_target ''b.xml'' ''./x.xml'' \<noteq> Inr ''x.xml''"
  by (simp add: resolve_target_def spec_resolve_def base_of_def startswith_def)

section \<open>Properties of the dictionaries\<close>

lemma first_seen_Nil: "first_seen [] = []"
  by (simp add: first_seen_def)

lemma first_seen_snoc:
  "first_seen (xs @ [x]) = (if x \<in> set xs then first_seen xs else first_seen xs @ [x])"
  by (simp add: first_seen_def)

lemma set_first_seen: "set (first_seen xs) = set xs"
  by (simp add: first_seen_def)

lemma distinct_first_seen: "distinct (first_seen xs)"
  by (simp add: first_seen_def)

lemma update_map_keys:
  "distinct ks \<Longrightarrow> AList.update k v (map (\<lambda>j. (j, f j)) ks) =
     (if k \<in> set ks then map (\<lambda>j. (j, if j = k then v else f j)) ks
      else map (\<lambda>j. (j, f j)) ks @ [(k, v)])"
  by (induction ks) auto

lemma map_of_map_keys: "map_of (map (\<lambda>j. (j, f j)) ks) k = (if k \<in> set ks then Some (f k) else None)"
  by (induction ks) auto

lemma fold_update_keys:
  "fold (\<lambda>x d. AList.update (key x) (step (dict_get d (key x) z) x) d) xs [] =
     map (\<lambda>k. (k, foldl step z (filter (\<lambda>x. key x = k) xs))) (first_seen (map key xs))"
proof (induction xs rule: rev_induct)
  case Nil
  show ?case by (simp add: first_seen_Nil)
next
  case (snoc x xs)
  let ?f = "\<lambda>k. foldl step z (filter (\<lambda>x. key x = k) xs)"
  let ?d = "map (\<lambda>k. (k, ?f k)) (first_seen (map key xs))"
  have get: "dict_get ?d (key x) z = ?f (key x)"
  proof (cases "key x \<in> set (map key xs)")
    case True
    then show ?thesis by (simp add: dict_get_def map_of_map_keys set_first_seen)
  next
    case False
    then have "\<And>y. y \<in> set xs \<Longrightarrow> key y \<noteq> key x" by (metis imageI set_map)
    then have "filter (\<lambda>y. key y = key x) xs = []" by (simp add: filter_empty_conv)
    with False show ?thesis by (simp add: dict_get_def map_of_map_keys set_first_seen)
  qed
  have "fold (\<lambda>x d. AList.update (key x) (step (dict_get d (key x) z) x) d) (xs @ [x]) [] =
        AList.update (key x) (step (?f (key x)) x) ?d"
    using snoc get by simp
  also have "\<dots> = map (\<lambda>k. (k, foldl step z (filter (\<lambda>y. key y = k) (xs @ [x]))))
                     (first_seen (map key (xs @ [x])))"
    by (auto simp: update_map_keys distinct_first_seen set_first_seen first_seen_snoc)
  finally show ?case .
qed

lemma foldl_snoc_id: "foldl (\<lambda>v x. v @ [x]) acc ys = acc @ ys"
  by (induction ys arbitrary: acc) auto

lemma foldl_count: "foldl (\<lambda>(v::nat) x. Suc v) n ys = n + length ys"
  by (induction ys arbitrary: n) auto

lemma group_by_eq:
  "group_by key xs = map (\<lambda>k. (k, filter (\<lambda>x. key x = k) xs)) (first_seen (map key xs))"
  unfolding group_by_def
  using fold_update_keys [of key "\<lambda>v x. v @ [x]" "[]" xs] by (simp add: foldl_snoc_id)

lemma length_filter_key: "length (filter (\<lambda>x. key x = k) xs) = count_list (map key xs) k"
  by (induction xs) auto

lemma rid_counts_eq:
  "rid_counts rels = map (\<lambda>k. (k, count_list (map rel_id rels) k)) (first_seen (map rel_id rels))"
  unfolding rid_counts_def
  using fold_update_keys [of rel_id "\<lambda>v x. v + 1" "0::nat" rels]
  by (simp add: foldl_count length_filter_key)


lemma collect_member:
  "collect body xs = Inr ys \<Longrightarrow>
   d \<in> set ys \<longleftrightarrow> (\<exists>x zs. x \<in> set xs \<and> body x = Inr zs \<and> d \<in> set zs)"
proof (induction xs arbitrary: ys)
  case Nil
  then show ?case by simp
next
  case (Cons y xs)
  obtain zs where zs: "body y = Inr zs"
    using Cons.prems(1) by (cases "body y") simp_all
  obtain ws where ws: "collect body xs = Inr ws"
    using Cons.prems(1) zs by (cases "collect body xs") simp_all
  have ys: "ys = zs @ ws" using Cons.prems(1) zs ws by simp
  show ?case
    unfolding ys using Cons.IH [OF ws] zs by auto
qed

lemma collect_all:
  assumes "collect body xs = Inr ys" "d \<in> set ys"
    and "\<And>x zs z. x \<in> set xs \<Longrightarrow> body x = Inr zs \<Longrightarrow> z \<in> set zs \<Longrightarrow> P z"
  shows "P d"
  using assms collect_member [OF assms(1), of d] by blast


section \<open>Properties of the model builder\<close>

lemma parse_relationships_total: "\<exists>rels. parse_relationships source els = Inr rels"
proof (induction els)
  case Nil
  show ?case by simp
next
  case (Cons el els)
  obtain rels where r: "parse_relationships source els = Inr rels" using Cons by blast
  obtain p where p: "resolve_target source (attr_get el ''Target'' []) = Inr p"
    using resolve_target_total by blast
  show ?case using r p by (simp add: Let_def)
qed

lemma parse_relationships_parsed:
  "parse_relationships source els = Inr rels \<Longrightarrow> r \<in> set rels \<Longrightarrow> parsed_rel source r"
proof (induction els arbitrary: rels)
  case Nil
  then show ?case by simp
next
  case (Cons el els)
  let ?mode = "attr_get el ''TargetMode'' ''Internal''"
  let ?target = "attr_get el ''Target'' []"
  obtain p rest where
    p: "(if ?mode \<noteq> ''External'' then resolve_target source ?target else Inr ?target) = Inr p"
    and rest: "parse_relationships source els = Inr rest"
    and rels: "rels = \<lparr>rel_id = attr_get el ''Id'' [], rel_type = attr_get el ''Type'' [],
        rel_target = ?target, rel_mode = ?mode, rel_resolved = Some p\<rparr> # rest"
    using Cons.prems(1) by (auto simp: Let_def split: sum.splits)
  show ?case
  proof (cases "r \<in> set rest")
    case True
    then show ?thesis using Cons.IH rest by blast
  next
    case False
    then have "r = \<lparr>rel_id = attr_get el ''Id'' [], rel_type = attr_get el ''Type'' [],
        rel_target = ?target, rel_mode = ?mode, rel_resolved = Some p\<rparr>"
      using Cons.prems(2) rels by simp
    then show ?thesis using p by (auto simp: parsed_rel_def split: if_splits)
  qed
qed

lemma list_index_error: "list_index xs x = Inl e \<Longrightarrow> e = ValueError"
  by (induction xs arbitrary: e) (auto split: if_splits sum.splits)

lemma list_index_absent: "x \<notin> set xs \<Longrightarrow> list_index xs x = Inl ValueError"
  by (induction xs) auto

lemma rels_to_part_error: "rels_to_part p = Inl e \<Longrightarrow> e = ValueError"
  by (auto simp: rels_to_part_def Let_def split: if_splits sum.splits dest: list_index_error)

lemma rels_to_part_no_segment:
  "p \<noteq> ''_rels/.rels'' \<Longrightarrow> ''_rels'' \<notin> set (str_split (CHR ''/'') p) \<Longrightarrow>
   rels_to_part p = Inl ValueError"
  by (simp add: rels_to_part_def Let_def list_index_absent)

lemma set_update_subset: "set (AList.update k v al) \<subseteq> insert (k, v) (set al)"
  by (induction al) auto

lemma model_invariant_update:
  assumes "model_invariant a" "parse_relationships s els = Inr rels"
  shows "model_invariant (a\<lparr>relations := AList.update s rels (relations a)\<rparr>)"
proof -
  have new: "\<forall>r \<in> set rels. parsed_rel s r"
    using assms(2) parse_relationships_parsed by blast
  have "parsed_rel source r"
    if "(source, rs) \<in> set (AList.update s rels (relations a))" "r \<in> set rs" for source rs r
  proof -
    have "(source, rs) = (s, rels) \<or> (source, rs) \<in> set (relations a)"
      using that(1) set_update_subset [of s rels "relations a"] by blast
    then show ?thesis
      using new that(2) assms(1) by (auto simp: model_invariant_def)
  qed
  then show ?thesis
    using assms(1) by (auto simp: model_invariant_def distinct_update)
qed

lemma parse_rels_Inr:
  assumes "parse_rels p a = Inr a'"
  shows "files a' = files a \<and> content_types a' = content_types a \<and>
         default_types a' = default_types a \<and>
         (\<exists>errs. issues a' = issues a @ errs \<and> set errs \<subseteq> {ISSUE_ERROR p}) \<and>
         (model_invariant a \<longrightarrow> model_invariant a')"
proof -
  obtain content where c: "map_of (files a) p = Some content"
    using assms by (auto simp: parse_rels_def split: option.splits)
  show ?thesis
  proof (cases "fromstring content")
    case (Inl e)
    then have "a' = a\<lparr>issues := issues a @ [ISSUE_ERROR p]\<rparr>"
      using assms c by (simp add: parse_rels_def split: if_splits)
    then show ?thesis by (simp add: model_invariant_def)
  next
    case (Inr root)
    then obtain s rels where s: "rels_to_part p = Inr s"
      and rels: "parse_relationships s (findall_child root (qname NS_rel ''Relationship'')) = Inr rels"
      and a': "a' = a\<lparr>relations := AList.update s rels (relations a)\<rparr>"
      using assms c by (auto simp: parse_rels_def split: sum.splits)
    show ?thesis
      using a' model_invariant_update [OF _ rels, of a] by simp
  qed
qed

lemma fromstring_error:
  "fromstring content = Inl e \<Longrightarrow>
   (e = ParseError \<and> etree content = NotWellFormed) \<or>
   (e = LookupError \<and> etree content = UnknownEncoding) \<or>
   (e = ValueError \<and> etree content = MultiByteEncoding)"
  by (cases "etree content") (auto simp: fromstring_def)

lemma fromstring_Inr: "fromstring content = Inr root \<longleftrightarrow> etree content = Parsed root"
  by (cases "etree content") (auto simp: fromstring_def)

lemma parse_rels_error:
  assumes "parse_rels p a = Inl e"
  shows "e = ValueError \<or> (e = KeyError \<and> map_of (files a) p = None) \<or>
         (e = LookupError \<and> (\<exists>c. map_of (files a) p = Some c \<and> etree c = UnknownEncoding))"
proof (cases "map_of (files a) p")
  case None
  then show ?thesis using assms by (simp add: parse_rels_def)
next
  case (Some content)
  show ?thesis
  proof (cases "fromstring content")
    case (Inl e')
    then have "e' = e" "e \<noteq> ParseError"
      using assms Some by (simp_all add: parse_rels_def split: if_splits)
    then show ?thesis using fromstring_error [OF Inl] Some by auto
  next
    case (Inr root)
    show ?thesis
    proof (cases "rels_to_part p")
      case (Inl e')
      then show ?thesis
        using assms Some Inr rels_to_part_error by (simp add: parse_rels_def)
    next
      case r: (Inr s)
      obtain rels where
        "parse_relationships s (findall_child root (qname NS_rel ''Relationship'')) = Inr rels"
        using parse_relationships_total by blast
      then show ?thesis using assms Some Inr r by (simp add: parse_rels_def)
    qed
  qed
qed

lemma parse_rels_loop_Inr:
  "parse_rels_loop names a = Inr a' \<Longrightarrow>
   files a' = files a \<and> content_types a' = content_types a \<and>
   default_types a' = default_types a \<and>
   (\<exists>errs. issues a' = issues a @ errs \<and> list_all early_issue errs) \<and>
   (model_invariant a \<longrightarrow> model_invariant a')"
proof (induction names arbitrary: a)
  case Nil
  then show ?case by simp
next
  case (Cons name names)
  show ?case
  proof (cases "endswith name ''.rels''")
    case False
    then show ?thesis using Cons by simp
  next
    case True
    then obtain a1 where a1: "parse_rels name a = Inr a1" and l: "parse_rels_loop names a1 = Inr a'"
      using Cons.prems by (auto split: sum.splits)
    obtain errs1 where e1: "issues a1 = issues a @ errs1" "set errs1 \<subseteq> {ISSUE_ERROR name}"
      using parse_rels_Inr [OF a1] by blast
    obtain errs2 where e2: "issues a' = issues a1 @ errs2" "list_all early_issue errs2"
      using Cons.IH [OF l] by blast
    have "list_all early_issue errs1"
      using e1(2) by (auto simp: list_all_iff early_issue_def)
    then have "issues a' = issues a @ (errs1 @ errs2) \<and> list_all early_issue (errs1 @ errs2)"
      using e1 e2 by simp
    then have "\<exists>errs. issues a' = issues a @ errs \<and> list_all early_issue errs" by blast
    then show ?thesis
      using parse_rels_Inr [OF a1] Cons.IH [OF l] by simp
  qed
qed

text \<open>
  The exceptions that leave the loop over the descriptors: the \<^verbatim>\<open>ValueError\<close> of the
  search for the \<open>_rels\<close> segment or of the parser, or the \<^verbatim>\<open>LookupError\<close> of the
  parser on a descriptor that declares an unknown encoding.
\<close>

lemma parse_rels_loop_error:
  "parse_rels_loop names a = Inl e \<Longrightarrow> set names \<subseteq> fst ` set (files a) \<Longrightarrow>
   e = ValueError \<or>
   (e = LookupError \<and>
    (\<exists>n c. map_of (files a) n = Some c \<and> endswith n ''.rels'' \<and> etree c = UnknownEncoding))"
proof (induction names arbitrary: a)
  case Nil
  then show ?case by simp
next
  case (Cons name names)
  show ?case
  proof (cases "endswith name ''.rels''")
    case False
    then show ?thesis using Cons by simp
  next
    case True
    show ?thesis
    proof (cases "parse_rels name a")
      case (Inl e')
      have "map_of (files a) name \<noteq> None"
        using Cons.prems(2) by (simp add: map_of_eq_None_iff)
      moreover have "e' = e" using Inl True Cons.prems(1) by simp
      ultimately show ?thesis
        using True parse_rels_error [OF Inl] by auto
    next
      case (Inr a1)
      then have f: "files a1 = files a" using parse_rels_Inr by blast
      have "parse_rels_loop names a1 = Inl e" using Cons.prems(1) Inr True by simp
      moreover have "set names \<subseteq> fst ` set (files a1)" using Cons.prems(2) f by simp
      ultimately show ?thesis using Cons.IH [of a1] f by simp
    qed
  qed
qed

lemma parse_rels_unowned:
  "unowned_descriptor a name \<Longrightarrow> parse_rels name a = Inl ValueError"
  by (auto simp: unowned_descriptor_def parse_rels_def fromstring_def rels_to_part_no_segment)

lemma parse_rels_loop_unowned:
  "name \<in> set names \<Longrightarrow> unowned_descriptor a name \<Longrightarrow> \<exists>e. parse_rels_loop names a = Inl e"
proof (induction names arbitrary: a)
  case Nil
  then show ?case by simp
next
  case (Cons n names)
  show ?case
  proof (cases "endswith n ''.rels''")
    case False
    then have "name \<noteq> n" using Cons.prems(2) by (auto simp: unowned_descriptor_def)
    then show ?thesis using Cons False by simp
  next
    case True
    show ?thesis
    proof (cases "parse_rels n a")
      case (Inl e)
      then show ?thesis using True by simp
    next
      case (Inr a1)
      then have f: "files a1 = files a" using parse_rels_Inr by blast
      have "name \<noteq> n" using Inr parse_rels_unowned Cons.prems(2) by auto
      then have "name \<in> set names" using Cons.prems(1) by simp
      moreover have "unowned_descriptor a1 name"
        using Cons.prems(2) f by (simp add: unowned_descriptor_def)
      ultimately have "\<exists>e. parse_rels_loop names a1 = Inl e"
        using Cons.IH by simp
      then show ?thesis using Inr True by auto
    qed
  qed
qed

lemma parse_all_rels_unowned:
  assumes "unowned_descriptor a name"
  shows "\<exists>e. parse_all_rels a = Inl e \<and>
           (e = ValueError \<or>
            (e = LookupError \<and>
             (\<exists>n c. map_of (files a) n = Some c \<and> endswith n ''.rels'' \<and>
                    etree c = UnknownEncoding)))"
proof -
  have "name \<in> set (map fst (files a))"
    using assms by (auto simp: unowned_descriptor_def dest: map_of_SomeD intro: rev_image_eqI)
  then obtain e where e: "parse_rels_loop (map fst (files a)) a = Inl e"
    using assms parse_rels_loop_unowned by blast
  show ?thesis
    using e parse_rels_loop_error [OF e] unfolding parse_all_rels_def by auto
qed

lemma parse_content_types_Inr:
  "parse_content_types a = Inr a' \<Longrightarrow>
   files a' = files a \<and> relations a' = relations a \<and>
   (\<exists>errs. issues a' = issues a @ errs \<and> list_all early_issue errs)"
  by (auto simp: parse_content_types_def early_issue_def split: option.splits sum.splits)

lemma distinct_fold_update:
  "distinct (map fst d) \<Longrightarrow> distinct (map fst (fold (\<lambda>x d. AList.update (k x) (v x) d) xs d))"
  by (induction xs arbitrary: d) (auto simp: distinct_update)

lemma parse_content_types_invariant:
  assumes "parse_content_types a = Inr a'" "model_invariant a"
  shows "model_invariant a'"
proof (cases "map_of (files a) ''[Content_Types].xml''")
  case None
  then have "a' = a\<lparr>issues := issues a @ [ISSUE_CRITICAL]\<rparr>"
    using assms(1) by (simp add: parse_content_types_def)
  then show ?thesis using assms(2) by (simp add: model_invariant_def)
next
  case (Some content)
  then obtain root where root: "fromstring content = Inr root"
    using assms(1) by (auto simp: parse_content_types_def split: sum.splits)
  obtain dt ct where "a' = a\<lparr>default_types := dt, content_types := ct\<rparr>"
    and "ct = fold (\<lambda>override d.
                AList.update (lstrip (attr_get override ''PartName'' []) (CHR ''/''))
                  (attr_get override ''ContentType'' []) d)
              (findall_child root (qname NS_ct ''Override'')) (content_types a)"
    using assms(1) Some root by (auto simp: parse_content_types_def)
  then show ?thesis
    using assms(2) by (simp add: model_invariant_def distinct_fold_update)
qed

lemma load_files_invariant: "model_invariant (load_files archive init_analyzer)"
proof -
  have "distinct (map fst (fold (\<lambda>x d. AList.update (fst x) (snd x) d) archive []))"
    by (rule distinct_fold_update) simp
  then show ?thesis
    unfolding load_files_def init_analyzer_def model_invariant_def case_prod_unfold
    by simp
qed

lemma analyze_stages:
  assumes "analyze archive = Inr a"
  obtains a1 a2 where "parse_content_types (load_files archive init_analyzer) = Inr a1"
    "parse_all_rels a1 = Inr a2" "validate_references a2 = Inr a"
  using assms by (auto simp: analyze_def split: sum.splits)

lemma validate_references_Inr:
  assumes "validate_references a2 = Inr a"
  obtains presentation_issues noteslide_issues app_issues comment_issues
  where "validate_presentation_ids a2 = Inr presentation_issues"
    "validate_noteslides a2 = Inr noteslide_issues"
    "validate_app_properties a2 = Inr app_issues"
    "validate_comments a2 = Inr comment_issues"
    "a = a2\<lparr>issues := issues a2 @ reference_issues a2 @ content_type_issues a2
            @ validate_layout_master_chain a2 @ presentation_issues
            @ noteslide_issues @ app_issues @ comment_issues\<rparr>"
proof (cases "validate_presentation_ids a2")
  case Inl
  then show ?thesis using assms by (simp add: validate_references_def)
next
  case p: (Inr presentation_issues)
  show ?thesis
  proof (cases "validate_noteslides a2")
    case Inl
    then show ?thesis using assms p by (simp add: validate_references_def)
  next
    case n: (Inr noteslide_issues)
    show ?thesis
    proof (cases "validate_app_properties a2")
      case Inl
      then show ?thesis using assms p n by (simp add: validate_references_def)
    next
      case ap: (Inr app_issues)
      show ?thesis
      proof (cases "validate_comments a2")
        case Inl
        then show ?thesis using assms p n ap by (simp add: validate_references_def)
      next
        case c: (Inr comment_issues)
        show ?thesis
          using assms p n ap c that [of presentation_issues noteslide_issues app_issues comment_issues]
          by (simp add: validate_references_def)
      qed
    qed
  qed
qed

lemma analyze_invariant:
  assumes "analyze archive = Inr a"
  shows "model_invariant a"
proof -
  obtain a1 a2 where s: "parse_content_types (load_files archive init_analyzer) = Inr a1"
    "parse_all_rels a1 = Inr a2" "validate_references a2 = Inr a"
    using assms by (rule analyze_stages)
  have "model_invariant a1"
    using parse_content_types_invariant [OF s(1)] load_files_invariant by blast
  then have "model_invariant a2"
    using s(2) parse_rels_loop_Inr unfolding parse_all_rels_def by blast
  moreover obtain x where "a = a2\<lparr>issues := x\<rparr>"
    using s(3) by (auto elim: validate_references_Inr)
  ultimately show ?thesis by (simp add: model_invariant_def)
qed

section \<open>The relationship graph\<close>

text \<open>
  Claim C5, as amended. Every parsed relationship has its \<open>resolved\<close> field set: for
  the mode \<open>External\<close> it holds the literal target, unchanged and not passed through
  the resolver; for every other mode it holds the canonical path the resolver computes
  from the source part and the target. This holds of the relationships
  \<^verbatim>\<open>_parse_rels\<close> builds from the elements of one descriptor, and of every relationship
  in the graph of a completed analysis.
\<close>

theorem relationship_resolved_field:
  "(parse_relationships source_part els = Inr rels \<and> r \<in> set rels \<longrightarrow>
      (\<exists>p. rel_resolved r = Some p \<and>
           (if rel_mode r = ''External'' then p = rel_target r
            else resolve_target source_part (rel_target r) = Inr p))) \<and>
   (analyze archive = Inr a \<and> (source, rels') \<in> set (relations a) \<and> r' \<in> set rels' \<longrightarrow>
      (\<exists>p. rel_resolved r' = Some p \<and>
           (if rel_mode r' = ''External'' then p = rel_target r'
            else resolve_target source (rel_target r') = Inr p)))"
proof -
  have "parsed_rel source_part r"
    if "parse_relationships source_part els = Inr rels" "r \<in> set rels"
    using that by (rule parse_relationships_parsed)
  moreover have "parsed_rel source r'"
    if "analyze archive = Inr a" "(source, rels') \<in> set (relations a)" "r' \<in> set rels'"
    using analyze_invariant [OF that(1)] that(2,3) by (auto simp: model_invariant_def)
  ultimately show ?thesis unfolding parsed_rel_def by blast
qed

text \<open>
  Witness for C5: the descriptor of a slide holds one external hyperlink; the parsed
  relationship's \<open>resolved\<close> field is its target.
\<close>

theorem relationship_resolved_field_witness:
  "parse_relationships ''ppt/slides/slide1.xml'' [external_link] = Inr [external_rel] \<and>
   external_rel \<in> set [external_rel] \<and>
   rel_resolved external_rel = Some (rel_target external_rel)"
  using relationship_resolved_field
    [of "''ppt/slides/slide1.xml''" "[external_link]" "[external_rel]" external_rel]
  by (simp add: external_link_def external_rel_def relationship_element_def attr_get_def
      dict_get_def Let_def)

text \<open>
  Counterexample to C5 as stated: the relationship parsed from an element with
  \<^verbatim>\<open>TargetMode="External"\<close> and the target \<open>http://example.com/\<close> has the mode
  \<open>External\<close>, and its \<open>resolved\<close> field is not left unset: it holds the target.
\<close>

theorem external_resolved_counterexample:
  "parse_relationships ''ppt/slides/slide1.xml'' [external_link] = Inr [external_rel] \<and>
   rel_mode external_rel = ''External'' \<and>
   rel_resolved external_rel = Some ''http://example.com/'' \<and>
   rel_resolved external_rel \<noteq> None"
  by (simp add: external_link_def external_rel_def relationship_element_def attr_get_def
      dict_get_def Let_def)

section \<open>Failures of the model builder\<close>

text \<open>
  Claim C2 (a defect of the code). When the archive holds a content-type manifest whose
  bytes are not well-formed XML, the analysis does not degrade to an empty table and a
  defect record: the \<^verbatim>\<open>ParseError\<close> of the unguarded parse in
  \<^verbatim>\<open>_parse_content_types\<close> leaves \<^verbatim>\<open>analyze\<close>, although the container opened.
\<close>

theorem malformed_manifest_raises:
  "map_of (files (load_files archive init_analyzer)) ''[Content_Types].xml'' = Some content \<Longrightarrow>
   etree content = NotWellFormed \<Longrightarrow> analyze archive = Inl ParseError"
  by (simp add: analyze_def parse_content_types_def fromstring_def load_files_def)

text \<open>
  Witness for C2: an archive whose only entry is a manifest that is not XML makes the
  analysis raise. The same bytes in the package-root relationship descriptor are
  handled as the claim says: the guarded parse of \<^verbatim>\<open>_parse_rels\<close> records an issue
  and the analysis completes.
\<close>

theorem malformed_manifest_raises_witness:
  "map_of (files (load_files [(''[Content_Types].xml'', binary_entry ''0000000000000000'')]
                    init_analyzer))
     ''[Content_Types].xml'' = Some (binary_entry ''0000000000000000'') \<and>
   etree (binary_entry ''0000000000000000'') = NotWellFormed \<and>
   analyze [(''[Content_Types].xml'', binary_entry ''0000000000000000'')] = Inl ParseError \<and>
   analyze [(''_rels/.rels'', binary_entry ''0000000000000000'')] =
     Inr \<lparr>files = [(''_rels/.rels'', binary_entry ''0000000000000000'')], content_types = [],
          default_types = [], relations = [],
          issues = [ISSUE_CRITICAL, ISSUE_ERROR ''_rels/.rels'']\<rparr>"
proof -
  have 1: "map_of (files (load_files [(''[Content_Types].xml'', binary_entry ''0000000000000000'')]
                            init_analyzer))
     ''[Content_Types].xml'' = Some (binary_entry ''0000000000000000'')"
    by (simp add: load_files_def init_analyzer_def)
  have 2: "etree (binary_entry ''0000000000000000'') = NotWellFormed"
    by (simp add: binary_entry_def)
  have 3: "analyze [(''_rels/.rels'', binary_entry ''0000000000000000'')] =
     Inr \<lparr>files = [(''_rels/.rels'', binary_entry ''0000000000000000'')], content_types = [],
          default_types = [], relations = [],
          issues = [ISSUE_CRITICAL, ISSUE_ERROR ''_rels/.rels'']\<rparr>"
    by code_simp
  show ?thesis using 1 2 3 malformed_manifest_raises [OF 1 2] by simp
qed

text \<open>
  Claim C9, as amended. If a loaded part has a name that ends in \<open>.rels\<close>, is not the
  package-root descriptor \<open>_rels/.rels\<close>, has no \<open>_rels\<close> segment in its path, and has
  a content that the parser accepts, then the analysis aborts: when the manifest stage
  itself raises, with that exception; otherwise the relationship-graph build raises, and
  so does the analysis. The exception is the \<^verbatim>\<open>ValueError\<close> of the search for the
  \<open>_rels\<close> segment, unless the parser raised on a descriptor before: a
  \<^verbatim>\<open>ValueError\<close> again, or a \<^verbatim>\<open>LookupError\<close>, which takes a descriptor that
  declares an unknown encoding. On the descriptor itself \<^verbatim>\<open>_parse_rels\<close> does what
  its content decides: accepted by the parser, the search raises \<^verbatim>\<open>ValueError\<close>;
  not well-formed, the guard records an \<^verbatim>\<open>ERROR\<close> issue and nothing is raised;
  with an encoding the parser refuses, the exception of the parser leaves the method.
\<close>

theorem descriptor_without_rels_segment_aborts:
  assumes "map_of (files (load_files archive init_analyzer)) name = Some content"
    and "etree content = Parsed root"
    and "endswith name ''.rels''" and "name \<noteq> ''_rels/.rels''"
    and "''_rels'' \<notin> set (str_split (CHR ''/'') name)"
  shows "(case parse_content_types (load_files archive init_analyzer) of
            Inl e \<Rightarrow> analyze archive = Inl e
          | Inr a1 \<Rightarrow>
              (\<exists>e. parse_all_rels a1 = Inl e \<and> analyze archive = Inl e \<and>
                 (e = ValueError \<or>
                  (e = LookupError \<and>
                   (\<exists>n c. map_of (files a1) n = Some c \<and> endswith n ''.rels'' \<and>
                          etree c = UnknownEncoding))))) \<and>
         (\<forall>(a :: analyzer) content'. map_of (files a) name = Some content' \<longrightarrow>
            parse_rels name a =
              (case etree content' of
                 Parsed root' \<Rightarrow> Inl ValueError
               | NotWellFormed \<Rightarrow> Inr (a\<lparr>issues := issues a @ [ISSUE_ERROR name]\<rparr>)
               | UnknownEncoding \<Rightarrow> Inl LookupError
               | MultiByteEncoding \<Rightarrow> Inl ValueError))"
proof
  show "case parse_content_types (load_files archive init_analyzer) of
            Inl e \<Rightarrow> analyze archive = Inl e
          | Inr a1 \<Rightarrow>
              (\<exists>e. parse_all_rels a1 = Inl e \<and> analyze archive = Inl e \<and>
                 (e = ValueError \<or>
                  (e = LookupError \<and>
                   (\<exists>n c. map_of (files a1) n = Some c \<and> endswith n ''.rels'' \<and>
                          etree c = UnknownEncoding))))"
  proof (cases "parse_content_types (load_files archive init_analyzer)")
    case (Inl e)
    then show ?thesis by (simp add: analyze_def)
  next
    case (Inr a1)
    then have "files a1 = files (load_files archive init_analyzer)"
      using parse_content_types_Inr by blast
    then have "unowned_descriptor a1 name"
      using assms by (simp add: unowned_descriptor_def)
    then obtain e where "parse_all_rels a1 = Inl e"
      "e = ValueError \<or>
       (e = LookupError \<and>
        (\<exists>n c. map_of (files a1) n = Some c \<and> endswith n ''.rels'' \<and> etree c = UnknownEncoding))"
      using parse_all_rels_unowned by blast
    then show ?thesis using Inr by (simp add: analyze_def)
  qed
  show "\<forall>(a :: analyzer) content'. map_of (files a) name = Some content' \<longrightarrow>
            parse_rels name a =
              (case etree content' of
                 Parsed root' \<Rightarrow> Inl ValueError
               | NotWellFormed \<Rightarrow> Inr (a\<lparr>issues := issues a @ [ISSUE_ERROR name]\<rparr>)
               | UnknownEncoding \<Rightarrow> Inl LookupError
               | MultiByteEncoding \<Rightarrow> Inl ValueError)"
  proof (intro allI impI)
    fix a :: analyzer and content'
    assume c: "map_of (files a) name = Some content'"
    have r: "rels_to_part name = Inl ValueError"
      using assms(4,5) by (rule rels_to_part_no_segment)
    show "parse_rels name a =
              (case etree content' of
                 Parsed root' \<Rightarrow> Inl ValueError
               | NotWellFormed \<Rightarrow> Inr (a\<lparr>issues := issues a @ [ISSUE_ERROR name]\<rparr>)
               | UnknownEncoding \<Rightarrow> Inl LookupError
               | MultiByteEncoding \<Rightarrow> Inl ValueError)"
      by (cases "etree content'") (simp_all add: parse_rels_def c r fromstring_def)
  qed
qed

text \<open>
  Witness for C9: the archive holds the single entry \<open>x.rels\<close>, an empty but
  well-formed relationship descriptor; the analysis raises \<^verbatim>\<open>ValueError\<close>. With
  a package-root descriptor before it that declares an unknown encoding, the analysis
  raises the \<^verbatim>\<open>LookupError\<close> of the parser.
\<close>

theorem descriptor_without_rels_segment_aborts_witness:
  "map_of (files (load_files [(''x.rels'', relationships_entry ''00'' [])] init_analyzer)) ''x.rels''
     = Some (relationships_entry ''00'' []) \<and>
   etree (relationships_entry ''00'' []) = Parsed (Element (qname NS_rel ''Relationships'') [] None []) \<and>
   endswith ''x.rels'' ''.rels'' \<and> ''x.rels'' \<noteq> ''_rels/.rels'' \<and>
   ''_rels'' \<notin> set (str_split (CHR ''/'') ''x.rels'') \<and>
   analyze [(''x.rels'', relationships_entry ''00'' [])] = Inl ValueError \<and>
   analyze [(''_rels/.rels'', unknown_encoding_entry ''01''),
            (''x.rels'', relationships_entry ''00'' [])] = Inl LookupError"
proof -
  have 1: "map_of (files (load_files [(''x.rels'', relationships_entry ''00'' [])] init_analyzer))
      ''x.rels'' = Some (relationships_entry ''00'' [])"
    by (simp add: load_files_def init_analyzer_def)
  have 2: "etree (relationships_entry ''00'' []) =
      Parsed (Element (qname NS_rel ''Relationships'') [] None [])"
    by (simp add: relationships_entry_def)
  have 3: "endswith ''x.rels'' ''.rels''" by (simp add: endswith_def)
  have 4: "''x.rels'' \<noteq> ''_rels/.rels''" by simp
  have 5: "''_rels'' \<notin> set (str_split (CHR ''/'') ''x.rels'')" by simp
  have 6: "parse_content_types (load_files [(''x.rels'', relationships_entry ''00'' [])] init_analyzer)
     = Inr ((load_files [(''x.rels'', relationships_entry ''00'' [])] init_analyzer)
              \<lparr>issues := [ISSUE_CRITICAL]\<rparr>)"
    by (simp add: parse_content_types_def load_files_def init_analyzer_def)
  have 7: "files ((load_files [(''x.rels'', relationships_entry ''00'' [])] init_analyzer)
              \<lparr>issues := [ISSUE_CRITICAL]\<rparr>) = [(''x.rels'', relationships_entry ''00'' [])]"
    by (simp add: load_files_def init_analyzer_def)
  have 8: "analyze [(''_rels/.rels'', unknown_encoding_entry ''01''),
                    (''x.rels'', relationships_entry ''00'' [])] = Inl LookupError"
    by code_simp
  have "analyze [(''x.rels'', relationships_entry ''00'' [])] = Inl ValueError"
    using descriptor_without_rels_segment_aborts [OF 1 2 3 4 5]
    by (auto simp: 6 7 2 split: if_splits)
  then show ?thesis using 1 2 3 4 5 8 by simp
qed

text \<open>
  Counterexample to C9 as stated: the archive holds the single entry \<open>x.rels\<close>, whose
  name ends in \<open>.rels\<close> and has no \<open>_rels\<close> segment, with bytes that are not
  well-formed XML. No exception is raised: the analysis completes, and the entry is a
  recorded defect.
\<close>

theorem malformed_descriptor_counterexample:
  "endswith ''x.rels'' ''.rels'' \<and> ''x.rels'' \<noteq> ''_rels/.rels'' \<and>
   ''_rels'' \<notin> set (str_split (CHR ''/'') ''x.rels'') \<and>
   etree (binary_entry ''00'') = NotWellFormed \<and>
   analyze [(''x.rels'', binary_entry ''00'')] =
     Inr \<lparr>files = [(''x.rels'', binary_entry ''00'')], content_types = [], default_types = [],
          relations = [], issues = [ISSUE_CRITICAL, ISSUE_ERROR ''x.rels'']\<rparr>"
proof -
  have "analyze [(''x.rels'', binary_entry ''00'')] =
     Inr \<lparr>files = [(''x.rels'', binary_entry ''00'')], content_types = [], default_types = [],
          relations = [], issues = [ISSUE_CRITICAL, ISSUE_ERROR ''x.rels'']\<rparr>"
    by code_simp
  then show ?thesis by (simp add: endswith_def binary_entry_def)
qed

section \<open>Properties of the validator\<close>

lemma validators_ignore_issues:
  "reference_issues (a\<lparr>issues := x\<rparr>) = reference_issues a"
  "content_type_issues (a\<lparr>issues := x\<rparr>) = content_type_issues a"
  "validate_layout_master_chain (a\<lparr>issues := x\<rparr>) = validate_layout_master_chain a"
  "validate_presentation_rels (a\<lparr>issues := x\<rparr>) = validate_presentation_rels a"
  "validate_notes_master (a\<lparr>issues := x\<rparr>) root = validate_notes_master a root"
  "validate_noteslide (a\<lparr>issues := x\<rparr>) = validate_noteslide a"
  "validate_app_properties (a\<lparr>issues := x\<rparr>) = validate_app_properties a"
  "validate_comments (a\<lparr>issues := x\<rparr>) = validate_comments a"
  by (simp_all add: reference_issues_def content_type_issues_def validate_layout_master_chain_def
      validate_presentation_rels_def validate_notes_master_def validate_noteslide_def
      validate_app_properties_def validate_comments_def Let_def
      cong: option.case_cong sum.case_cong if_cong)

lemma validate_noteslides_ignores_issues:
  "validate_noteslides (a\<lparr>issues := x\<rparr>) = validate_noteslides a"
  by (simp add: validate_noteslides_def validators_ignore_issues)

lemma validate_presentation_ids_ignores_issues:
  "validate_presentation_ids (a\<lparr>issues := x\<rparr>) = validate_presentation_ids a"
  by (simp add: validate_presentation_ids_def validators_ignore_issues
      cong: option.case_cong sum.case_cong)

lemma analyze_issues:
  assumes "analyze archive = Inr a"
  obtains pre presentation_issues noteslide_issues app_issues comment_issues
  where "list_all early_issue pre"
    "validate_presentation_ids a = Inr presentation_issues"
    "validate_noteslides a = Inr noteslide_issues"
    "validate_app_properties a = Inr app_issues"
    "validate_comments a = Inr comment_issues"
    "issues a = pre @ reference_issues a @ content_type_issues a
        @ validate_layout_master_chain a @ presentation_issues
        @ noteslide_issues @ app_issues @ comment_issues"
proof -
  obtain a1 a2 where s: "parse_content_types (load_files archive init_analyzer) = Inr a1"
    "parse_all_rels a1 = Inr a2" "validate_references a2 = Inr a"
    using assms by (rule analyze_stages)
  obtain e1 where e1: "issues a1 = issues (load_files archive init_analyzer) @ e1"
      "list_all early_issue e1"
    using parse_content_types_Inr [OF s(1)] by blast
  obtain e2 where e2: "issues a2 = issues a1 @ e2" "list_all early_issue e2"
    using s(2) parse_rels_loop_Inr unfolding parse_all_rels_def by blast
  have pre: "issues a2 = e1 @ e2"
    using e1(1) e2(1) by (simp add: load_files_def init_analyzer_def)
  have early: "list_all early_issue (e1 @ e2)"
    using e1(2) e2(2) by simp
  obtain presentation_issues noteslide_issues app_issues comment_issues
    where v: "validate_presentation_ids a2 = Inr presentation_issues"
      "validate_noteslides a2 = Inr noteslide_issues"
      "validate_app_properties a2 = Inr app_issues"
      "validate_comments a2 = Inr comment_issues"
      and a: "a = a2\<lparr>issues := issues a2 @ reference_issues a2 @ content_type_issues a2
            @ validate_layout_master_chain a2 @ presentation_issues
            @ noteslide_issues @ app_issues @ comment_issues\<rparr>"
    using s(3) by (rule validate_references_Inr)
  show ?thesis
    by (rule that [of "e1 @ e2" presentation_issues noteslide_issues app_issues comment_issues])
       (simp_all add: pre e1(2) e2(2) a v validators_ignore_issues
          validate_presentation_ids_ignores_issues validate_noteslides_ignores_issues)
qed

lemma early_not_reference: "early_issue i \<Longrightarrow> \<not> reference_issue i"
  by (cases i) (simp_all add: early_issue_def reference_issue_def)

lemma content_type_issues_kind: "i \<in> set (content_type_issues a) \<Longrightarrow> \<not> reference_issue i"
  by (auto simp: content_type_issues_def reference_issue_def Let_def split: if_splits)

lemma layout_issues_kind: "i \<in> set (validate_layout_master_chain a) \<Longrightarrow> \<not> reference_issue i"
  by (auto simp: validate_layout_master_chain_def reference_issue_def Let_def split: if_splits)

lemma presentation_rels_issues_kind:
  "i \<in> set (validate_presentation_rels a) \<Longrightarrow> \<not> reference_issue i"
  by (auto simp: validate_presentation_rels_def reference_issue_def Let_def split: if_splits)

lemma sections_issues_kind: "i \<in> set (validate_sections root) \<Longrightarrow> \<not> reference_issue i"
  by (auto simp: validate_sections_def reference_issue_def Let_def split: if_splits option.splits)

lemma notes_master_issues_kind: "i \<in> set (validate_notes_master a root) \<Longrightarrow> \<not> reference_issue i"
  by (auto simp: validate_notes_master_def reference_issue_def Let_def split: if_splits option.splits)

lemma presentation_ids_issues_kind:
  assumes "validate_presentation_ids a = Inr is" "i \<in> set is"
  shows "\<not> reference_issue i"
proof (cases "map_of (files a) ''ppt/presentation.xml''")
  case None
  then show ?thesis using assms by (simp add: validate_presentation_ids_def)
next
  case (Some content)
  show ?thesis
  proof (cases "fromstring content")
    case (Inl e)
    then show ?thesis
      using assms Some by (simp add: validate_presentation_ids_def split: if_splits)
  next
    case (Inr root)
    then have "is = duplicate_id_issue DUPLICATE_SLIDE_ID
                      (truthy_attrs
                         (findall_desc_child root (qname NS_p ''sldIdLst'') (qname NS_p ''sldId''))
                         ''id'')
                    @ duplicate_id_issue DUPLICATE_MASTER_ID
                      (truthy_attrs
                         (findall_desc_child root (qname NS_p ''sldMasterIdLst'')
                            (qname NS_p ''sldMasterId'')) ''id'')
                    @ validate_presentation_rels a
                    @ validate_sections root
                    @ validate_notes_master a root"
      using assms(1) Some by (simp add: validate_presentation_ids_def)
    then show ?thesis
      using assms(2) presentation_rels_issues_kind sections_issues_kind notes_master_issues_kind
      by (auto simp: duplicate_id_issue_def reference_issue_def Let_def split: if_splits)
  qed
qed

lemma noteslide_issues_kind:
  "validate_noteslide a x = Inr is \<Longrightarrow> i \<in> set is \<Longrightarrow> \<not> reference_issue i"
  by (cases x; cases "fromstring (snd x)")
     (auto simp: validate_noteslide_def reference_issue_def Let_def
           split: if_splits option.splits)

lemma noteslides_issues_kind:
  "validate_noteslides a = Inr is \<Longrightarrow> i \<in> set is \<Longrightarrow> \<not> reference_issue i"
  unfolding validate_noteslides_def
  by (erule collect_all, assumption) (rule noteslide_issues_kind)

lemma app_issues_kind:
  "validate_app_properties a = Inr is \<Longrightarrow> i \<in> set is \<Longrightarrow> \<not> reference_issue i"
  by (auto simp: validate_app_properties_def reference_issue_def Let_def
           split: if_splits option.splits sum.splits)

lemma comment_issues_kind:
  "validate_comment ids x = Inr is \<Longrightarrow> i \<in> set is \<Longrightarrow> \<not> reference_issue i"
  by (cases x; cases "fromstring (snd x)")
     (auto simp: validate_comment_def reference_issue_def split: if_splits)

lemma comments_issues_kind:
  assumes "validate_comments a = Inr is" "i \<in> set is"
  shows "\<not> reference_issue i"
proof (cases "map_of (files a) ''ppt/commentAuthors.xml''")
  case None
  then show ?thesis using assms by (simp add: validate_comments_def)
next
  case (Some content)
  show ?thesis
  proof (cases "fromstring content")
    case (Inl e)
    then show ?thesis
      using assms Some by (auto simp: validate_comments_def reference_issue_def split: if_splits)
  next
    case (Inr root)
    then have "collect
                 (validate_comment (truthy_attrs (findall_desc root (qname NS_p ''cmAuthor'')) ''id''))
                 (files a) = Inr is"
      using assms(1) Some by (simp add: validate_comments_def)
    then show ?thesis using assms(2) by (rule collect_all) (rule comment_issues_kind)
  qed
qed

lemma filter_none: "(\<And>x. x \<in> set xs \<Longrightarrow> \<not> P x) \<Longrightarrow> filter P xs = []"
  by (simp add: filter_empty_conv)

lemma analyze_reference_issues:
  assumes "analyze archive = Inr a" and "\<And>i. P i \<Longrightarrow> reference_issue i"
  shows "filter P (issues a) = filter P (reference_issues a)"
proof -
  obtain pre presentation_issues noteslide_issues app_issues comment_issues
    where s: "list_all early_issue pre"
      "validate_presentation_ids a = Inr presentation_issues"
      "validate_noteslides a = Inr noteslide_issues"
      "validate_app_properties a = Inr app_issues"
      "validate_comments a = Inr comment_issues"
      "issues a = pre @ reference_issues a @ content_type_issues a
        @ validate_layout_master_chain a @ presentation_issues
        @ noteslide_issues @ app_issues @ comment_issues"
    using assms(1) by (rule analyze_issues)
  have "filter P pre = []"
    using s(1) assms(2) early_not_reference by (intro filter_none) (auto simp: list_all_iff)
  moreover have "filter P (content_type_issues a) = []"
    using assms(2) content_type_issues_kind by (intro filter_none) blast
  moreover have "filter P (validate_layout_master_chain a) = []"
    using assms(2) layout_issues_kind by (intro filter_none) blast
  moreover have "filter P presentation_issues = []"
    using assms(2) presentation_ids_issues_kind [OF s(2)] by (intro filter_none) blast
  moreover have "filter P noteslide_issues = []"
    using assms(2) noteslides_issues_kind [OF s(3)] by (intro filter_none) blast
  moreover have "filter P app_issues = []"
    using assms(2) app_issues_kind [OF s(4)] by (intro filter_none) blast
  moreover have "filter P comment_issues = []"
    using assms(2) comments_issues_kind [OF s(5)] by (intro filter_none) blast
  ultimately show ?thesis by (simp add: s(6))
qed

subsection \<open>Duplicate relationship ids and broken references\<close>

lemma concat_map_single:
  "distinct (map fst xs) \<Longrightarrow> (k, v) \<in> set xs \<Longrightarrow>
   (\<And>k' v'. (k', v') \<in> set xs \<Longrightarrow> k' \<noteq> k \<Longrightarrow> g (k', v') = []) \<Longrightarrow>
   concat (map g xs) = g (k, v)"
proof (induction xs)
  case Nil
  then show ?case by simp
next
  case (Cons x xs)
  show ?case
  proof (cases "x = (k, v)")
    case True
    have "\<And>y. y \<in> set xs \<Longrightarrow> g y = []"
    proof -
      fix y assume y: "y \<in> set xs"
      then have "fst y \<noteq> k" using Cons.prems(1) True by (auto simp: image_iff)
      then show "g y = []" using Cons.prems(3) [of "fst y" "snd y"] y by simp
    qed
    then have "concat (map g xs) = []" by simp
    then show ?thesis using True by simp
  next
    case False
    then have in_xs: "(k, v) \<in> set xs" using Cons.prems(2) by simp
    then have "fst x \<noteq> k" using Cons.prems(1) by (auto simp: image_iff)
    then have "g x = []" using Cons.prems(3) [of "fst x" "snd x"] by simp
    moreover have "concat (map g xs) = g (k, v)"
      using Cons.IH Cons.prems in_xs by simp
    ultimately show ?thesis by simp
  qed
qed

lemma concat_map_key:
  "distinct ks \<Longrightarrow>
   concat (map (\<lambda>k. if k = x then h else []) ks) = (if x \<in> set ks then h else [])"
  by (induction ks) auto

lemma filter_duplicate_rid_issues:
  "filter (duplicate_rid_of source rid) (duplicate_rid_issues s rels) =
     (if s = source \<and> 2 \<le> count_list (map rel_id rels) rid
      then [DUPLICATE_RID source rid (count_list (map rel_id rels) rid)] else [])"
proof -
  let ?n = "\<lambda>k. count_list (map rel_id rels) k"
  define h where
    "h = (if s = source \<and> 2 \<le> ?n rid then [DUPLICATE_RID source rid (?n rid)] else [])"
  have step: "filter (duplicate_rid_of source rid)
          (if Suc 0 < ?n k then [DUPLICATE_RID s k (?n k)] else []) =
        (if k = rid then h else [])" for k
    by (auto simp: duplicate_rid_of_def h_def)
  have "filter (duplicate_rid_of source rid) (duplicate_rid_issues s rels) =
        concat (map (\<lambda>k. if k = rid then h else []) (first_seen (map rel_id rels)))"
    by (simp add: duplicate_rid_issues_def rid_counts_eq filter_concat comp_def step)
  also have "\<dots> = (if rid \<in> set (map rel_id rels) then h else [])"
    by (simp add: concat_map_key distinct_first_seen set_first_seen del: set_map)
  also have "\<dots> = h"
  proof (cases "rid \<in> set (map rel_id rels)")
    case True
    then show ?thesis by simp
  next
    case False
    then have "?n rid = 0" by (simp add: count_list_0_iff)
    then show ?thesis by (simp add: h_def)
  qed
  finally show ?thesis by (simp add: h_def)
qed

lemma filter_duplicate_broken:
  "filter (duplicate_rid_of source rid) (broken_ref_issues parts s rels) = []"
  by (auto simp: broken_ref_issues_def duplicate_rid_of_def filter_empty_conv
           split: option.splits if_splits)

lemma analyze_duplicate: "analyze archive_duplicate = Inr model_duplicate"
  by code_simp

text \<open>
  Claim C8. In the issue list of a completed analysis, for every source part of the
  relationship graph and every relationship id: when the id occurs at least twice in the
  relationship set of that source, there is exactly one \<^verbatim>\<open>DUPLICATE_RID\<close> issue for
  that source and id, and its count is the number of occurrences (so at least 2); when
  the id occurs once or not at all, there is none.
\<close>

theorem duplicate_rid_issue_per_id:
  assumes "analyze archive = Inr a" and "(source, rels) \<in> set (relations a)"
  shows "filter (duplicate_rid_of source rid) (issues a) =
     (if 2 \<le> count_list (map rel_id rels) rid
      then [DUPLICATE_RID source rid (count_list (map rel_id rels) rid)] else [])"
proof -
  have d: "distinct (map fst (relations a))"
    using analyze_invariant [OF assms(1)] by (simp add: model_invariant_def)
  let ?g = "\<lambda>(s, rs). filter (duplicate_rid_of source rid)
      (duplicate_rid_issues s rs @ broken_ref_issues (map fst (files a)) s rs)"
  have "filter (duplicate_rid_of source rid) (issues a) =
        filter (duplicate_rid_of source rid) (reference_issues a)"
    by (rule analyze_reference_issues [OF assms(1)])
       (auto simp: duplicate_rid_of_def reference_issue_def split: issue.splits)
  also have "\<dots> = concat (map ?g (relations a))"
    by (simp add: reference_issues_def filter_concat comp_def case_prod_unfold)
  also have "\<dots> = ?g (source, rels)"
    by (rule concat_map_single [OF d assms(2)])
       (simp add: filter_duplicate_rid_issues filter_duplicate_broken)
  finally show ?thesis
    by (simp add: filter_duplicate_rid_issues filter_duplicate_broken)
qed

text \<open>
  Witness for C8: in the package-root descriptor the id \<open>rId1\<close> occurs twice and
  \<open>rId2\<close> once; the analysis reports one issue for \<open>rId1\<close>, with count 2, and none
  for \<open>rId2\<close>.
\<close>

theorem duplicate_rid_issue_per_id_witness:
  "analyze archive_duplicate = Inr model_duplicate \<and>
   ([], duplicate_rels) \<in> set (relations model_duplicate) \<and>
   map rel_id duplicate_rels = [''rId1'', ''rId1'', ''rId2''] \<and>
   filter (duplicate_rid_of [] ''rId1'') (issues model_duplicate) = [DUPLICATE_RID [] ''rId1'' 2] \<and>
   filter (duplicate_rid_of [] ''rId2'') (issues model_duplicate) = []"
proof -
  have m: "([], duplicate_rels) \<in> set (relations model_duplicate)"
    by (simp add: model_duplicate_def)
  have ids: "map rel_id duplicate_rels = [''rId1'', ''rId1'', ''rId2'']"
    by (simp add: duplicate_rels_def)
  show ?thesis
    using duplicate_rid_issue_per_id [OF analyze_duplicate m, of "''rId1''"]
      duplicate_rid_issue_per_id [OF analyze_duplicate m, of "''rId2''"]
      analyze_duplicate m
    by (simp add: ids)
qed

lemma broken_ref_in_broken_ref_issues:
  "BROKEN_REF source target rid \<in> set (broken_ref_issues parts s rels) \<longleftrightarrow>
     s = source \<and>
     (\<exists>r \<in> set rels. rel_mode r \<noteq> ''External'' \<and> rel_resolved r = Some target \<and>
        rel_id r = rid \<and> target \<noteq> [] \<and> target \<notin> set parts)"
proof -
  have per: "BROKEN_REF source target rid \<in> set
       (if rel_mode r = ''External'' then []
        else (case rel_resolved r of
                None \<Rightarrow> []
              | Some t \<Rightarrow>
                  if t \<noteq> [] \<and> t \<notin> set parts
                  then [BROKEN_REF s t (rel_id r)] else [])) \<longleftrightarrow>
     (s = source \<and> rel_mode r \<noteq> ''External'' \<and> rel_resolved r = Some target \<and>
        rel_id r = rid \<and> target \<noteq> [] \<and> target \<notin> set parts)" for r
    by (auto split: option.splits)
  have "BROKEN_REF source target rid \<in> set (broken_ref_issues parts s rels) \<longleftrightarrow>
     (\<exists>r \<in> set rels. BROKEN_REF source target rid \<in> set
       (if rel_mode r = ''External'' then []
        else (case rel_resolved r of
                None \<Rightarrow> []
              | Some t \<Rightarrow>
                  if t \<noteq> [] \<and> t \<notin> set parts
                  then [BROKEN_REF s t (rel_id r)] else [])))"
    unfolding broken_ref_issues_def set_concat set_map by blast
  then show ?thesis unfolding per by blast
qed

lemma broken_ref_not_duplicate:
  "BROKEN_REF source target rid \<notin> set (duplicate_rid_issues s rels)"
  by (auto simp: duplicate_rid_issues_def split: if_splits)

lemma broken_ref_in_reference_issues:
  "BROKEN_REF source target rid \<in> set (reference_issues a) \<longleftrightarrow>
     (\<exists>rels r. (source, rels) \<in> set (relations a) \<and> r \<in> set rels \<and>
        rel_mode r \<noteq> ''External'' \<and> rel_resolved r = Some target \<and> rel_id r = rid \<and>
        target \<noteq> [] \<and> target \<notin> fst ` set (files a))"
proof -
  have "BROKEN_REF source target rid \<in> set (reference_issues a) \<longleftrightarrow>
        (\<exists>(s, rels) \<in> set (relations a).
           BROKEN_REF source target rid \<in> set (broken_ref_issues (map fst (files a)) s rels))"
    by (auto simp: reference_issues_def broken_ref_not_duplicate)
  also have "\<dots> \<longleftrightarrow> (\<exists>rels r. (source, rels) \<in> set (relations a) \<and> r \<in> set rels \<and>
        rel_mode r \<noteq> ''External'' \<and> rel_resolved r = Some target \<and> rel_id r = rid \<and>
        target \<noteq> [] \<and> target \<notin> fst ` set (files a))"
    unfolding broken_ref_in_broken_ref_issues by auto
  finally show ?thesis .
qed

lemma analyze_empty_target: "analyze archive_empty_target = Inr model_empty_target"
  by code_simp

text \<open>
  Claim C10. In the issue list of a completed analysis, a \<^verbatim>\<open>BROKEN_REF\<close> issue for a
  source, a target and a relationship id is present exactly when that source has a
  relationship with that id whose mode is not \<open>External\<close> and whose resolved path is
  that target, is not empty and is not the name of a loaded part. In particular no
  \<^verbatim>\<open>BROKEN_REF\<close> issue has the empty string as its target.
\<close>

theorem broken_ref_only_nonempty_target:
  assumes "analyze archive = Inr a"
  shows "(BROKEN_REF source target rid \<in> set (issues a) \<longleftrightarrow>
           (\<exists>rels r. (source, rels) \<in> set (relations a) \<and> r \<in> set rels \<and>
              rel_mode r \<noteq> ''External'' \<and> rel_resolved r = Some target \<and> rel_id r = rid \<and>
              target \<noteq> [] \<and> target \<notin> fst ` set (files a))) \<and>
         BROKEN_REF source [] rid \<notin> set (issues a)"
proof -
  have eq: "filter (\<lambda>i. i = BROKEN_REF s t r) (issues a) =
            filter (\<lambda>i. i = BROKEN_REF s t r) (reference_issues a)" for s t r
    by (rule analyze_reference_issues [OF assms]) (simp add: reference_issue_def)
  have mem: "BROKEN_REF s t r \<in> set (issues a) \<longleftrightarrow> BROKEN_REF s t r \<in> set (reference_issues a)"
    for s t r
  proof -
    have "BROKEN_REF s t r \<in> set (issues a) \<longleftrightarrow>
          filter (\<lambda>i. i = BROKEN_REF s t r) (issues a) \<noteq> []"
      by (auto simp: filter_empty_conv)
    also have "\<dots> \<longleftrightarrow> BROKEN_REF s t r \<in> set (reference_issues a)"
      unfolding eq by (auto simp: filter_empty_conv)
    finally show ?thesis .
  qed
  show ?thesis
    unfolding mem broken_ref_in_reference_issues by simp
qed

text \<open>
  Witness for C10: the package-root descriptor holds a relationship with an empty
  target, resolved to the empty string, and one to \<open>missing.xml\<close>. No part has the
  empty name, yet only the second relationship is reported.
\<close>

theorem broken_ref_only_nonempty_target_witness:
  "analyze archive_empty_target = Inr model_empty_target \<and>
   relations model_empty_target = [([], empty_target_rels)] \<and>
   map rel_resolved empty_target_rels = [Some [], Some ''missing.xml''] \<and>
   [] \<notin> fst ` set (files model_empty_target) \<and>
   BROKEN_REF [] [] ''rId1'' \<notin> set (issues model_empty_target) \<and>
   BROKEN_REF [] ''missing.xml'' ''rId2'' \<in> set (issues model_empty_target)"
proof -
  have f: "[] \<notin> fst ` set (files model_empty_target)"
    by (simp add: model_empty_target_def archive_empty_target_def)
  have r: "relations model_empty_target = [([], empty_target_rels)]"
    by (simp add: model_empty_target_def)
  have "\<exists>rels r. ([], rels) \<in> set (relations model_empty_target) \<and> r \<in> set rels \<and>
          rel_mode r \<noteq> ''External'' \<and> rel_resolved r = Some ''missing.xml'' \<and>
          rel_id r = ''rId2'' \<and> ''missing.xml'' \<noteq> [] \<and>
          ''missing.xml'' \<notin> fst ` set (files model_empty_target)"
    by (rule exI [of _ empty_target_rels], rule exI [of _ "empty_target_rels ! 1"])
       (simp add: model_empty_target_def archive_empty_target_def empty_target_rels_def)
  then show ?thesis
    using broken_ref_only_nonempty_target [OF analyze_empty_target, of "[]" "''missing.xml''" "''rId2''"]
      broken_ref_only_nonempty_target [OF analyze_empty_target, of "[]" "[]" "''rId1''"]
      analyze_empty_target f r
    by (simp add: empty_target_rels_def)
qed

subsection \<open>Misplaced relationships in the presentation descriptor\<close>



lemma invalid_rels_of_Cons:
  "invalid_rels_of (r # rs) =
     (case map_of INVALID_PRES_REL_TYPES (type_name r) of
        None \<Rightarrow> []
      | Some reason \<Rightarrow>
          [\<lparr>ir_rid = rel_id r, ir_type = type_name r, ir_target = rel_target r,
            ir_reason = reason\<rparr>]) @ invalid_rels_of rs"
  by (simp add: invalid_rels_of_def Let_def)

lemma invalid_rels_of_Nil: "invalid_rels_of [] = []"
  by (simp add: invalid_rels_of_def)

lemma disallowed_iff: "disallowed r \<longleftrightarrow> map_of INVALID_PRES_REL_TYPES (type_name r) \<noteq> None"
  by (simp add: map_of_eq_None_iff)

lemma invalid_rels_of_filter: "invalid_rels_of (filter disallowed rs) = invalid_rels_of rs"
  by (induction rs) (auto simp: invalid_rels_of_Cons invalid_rels_of_Nil disallowed_iff
       simp del: set_map split: option.splits)

lemma invalid_rels_of_fields:
  "map ir_type (invalid_rels_of rs) = map type_name (filter disallowed rs)"
  "map ir_rid (invalid_rels_of rs) = map rel_id (filter disallowed rs)"
  "map ir_target (invalid_rels_of rs) = map rel_target (filter disallowed rs)"
  by (induction rs)
     (auto simp: invalid_rels_of_Cons invalid_rels_of_Nil disallowed_iff
       simp del: set_map split: option.splits)

lemma invalid_rels_of_kind:
  "filter (\<lambda>x. ir_type x = k) (invalid_rels_of rs) =
   invalid_rels_of (filter (\<lambda>r. type_name r = k) rs)"
  by (induction rs) (auto simp: invalid_rels_of_Cons invalid_rels_of_Nil split: option.splits)

lemma length_invalid_rels_of: "length (invalid_rels_of rs) = length (filter disallowed rs)"
  using invalid_rels_of_fields(1) [of rs] by (metis length_map)

lemma validate_presentation_rels_eq:
  "validate_presentation_rels a =
     (if misplaced_rels a = [] then []
      else INVALID_PRESENTATION_RELS (invalid_rels_of (misplaced_rels a)) #
           map (\<lambda>kind. PRES_RELS_INVALID kind
                  (length (filter (\<lambda>r. type_name r = kind) (misplaced_rels a)))
                  (map rel_id (filter (\<lambda>r. type_name r = kind) (misplaced_rels a)))
                  (map rel_target (filter (\<lambda>r. type_name r = kind) (misplaced_rels a))))
             (first_seen (map type_name (misplaced_rels a))))"
proof -
  let ?pres = "dict_get (relations a) ''ppt/presentation.xml'' []"
  let ?inv = "invalid_rels_of ?pres"
  have m: "misplaced_rels a = filter disallowed ?pres" by (simp add: misplaced_rels_def)
  have inv: "invalid_rels_of (misplaced_rels a) = ?inv"
    unfolding m by (rule invalid_rels_of_filter)
  have empty: "?inv = [] \<longleftrightarrow> misplaced_rels a = []"
    using length_invalid_rels_of [of ?pres] unfolding m by (metis length_0_conv)
  have per: "length (filter (\<lambda>x. ir_type x = k) ?inv) =
               length (filter (\<lambda>r. type_name r = k) (misplaced_rels a)) \<and>
             map ir_rid (filter (\<lambda>x. ir_type x = k) ?inv) =
               map rel_id (filter (\<lambda>r. type_name r = k) (misplaced_rels a)) \<and>
             map ir_target (filter (\<lambda>x. ir_type x = k) ?inv) =
               map rel_target (filter (\<lambda>r. type_name r = k) (misplaced_rels a))" for k
  proof -
    have c: "filter disallowed (filter (\<lambda>r. type_name r = k) ?pres) =
             filter (\<lambda>r. type_name r = k) (misplaced_rels a)"
      unfolding m by (simp add: conj_commute)
    show ?thesis
      unfolding invalid_rels_of_kind
      using invalid_rels_of_fields(2,3) [of "filter (\<lambda>r. type_name r = k) ?pres"]
        length_invalid_rels_of [of "filter (\<lambda>r. type_name r = k) ?pres"]
      unfolding c by simp
  qed
  have groups: "map (\<lambda>(kind, rels). PRES_RELS_INVALID kind (length rels) (map ir_rid rels)
                                   (map ir_target rels)) (group_by ir_type ?inv) =
        map (\<lambda>kind. PRES_RELS_INVALID kind
                  (length (filter (\<lambda>r. type_name r = kind) (misplaced_rels a)))
                  (map rel_id (filter (\<lambda>r. type_name r = kind) (misplaced_rels a)))
                  (map rel_target (filter (\<lambda>r. type_name r = kind) (misplaced_rels a))))
             (first_seen (map type_name (misplaced_rels a)))"
    unfolding group_by_eq invalid_rels_of_fields(1) m [symmetric]
    by (simp add: comp_def per)
  show ?thesis
  proof (cases "misplaced_rels a = []")
    case True
    then have "?inv = []" using empty by simp
    then show ?thesis using True by (simp add: validate_presentation_rels_def)
  next
    case False
    then have "?inv \<noteq> []" using empty by simp
    then show ?thesis
      using False by (simp add: validate_presentation_rels_def Let_def groups inv)
  qed
qed

lemma analyze_two_images: "analyze archive_two_images = Inr model_two_images"
  by code_simp

lemma misplaced_two_images:
  "misplaced_rels model_two_images = [image_rel ''rId1'' ''pic1.png'', image_rel ''rId2'' ''pic2.png'']"
  by code_simp

text \<open>
  Claim C6, as amended. When the descriptor of the presentation holds \<open>N > 0\<close>
  relationships of a disallowed kind, of \<open>k\<close> distinct kinds, the check of that
  descriptor emits \<open>1 + k\<close> issues: one \<^verbatim>\<open>INVALID_PRESENTATION_RELS\<close> issue whose
  list has one entry per occurrence (\<open>N\<close> entries), then one
  \<^verbatim>\<open>PRES_RELS_INVALID_<KIND>\<close> issue per kind, in the order the kinds first occur,
  with the count, the ids and the targets of the occurrences of that kind. It emits
  nothing when there is no such relationship.
\<close>

theorem presentation_rels_issue_shape:
  "validate_presentation_rels a =
     (if misplaced_rels a = [] then []
      else INVALID_PRESENTATION_RELS (invalid_rels_of (misplaced_rels a)) #
           map (\<lambda>kind. PRES_RELS_INVALID kind
                  (length (filter (\<lambda>r. type_name r = kind) (misplaced_rels a)))
                  (map rel_id (filter (\<lambda>r. type_name r = kind) (misplaced_rels a)))
                  (map rel_target (filter (\<lambda>r. type_name r = kind) (misplaced_rels a))))
             (first_seen (map type_name (misplaced_rels a)))) \<and>
   length (invalid_rels_of (misplaced_rels a)) = length (misplaced_rels a) \<and>
   length (validate_presentation_rels a) =
     (if misplaced_rels a = [] then 0 else 1 + card (type_name ` set (misplaced_rels a)))"
proof -
  have f: "filter disallowed (misplaced_rels a) = misplaced_rels a"
    by (simp add: misplaced_rels_def)
  have l: "length (invalid_rels_of (misplaced_rels a)) = length (misplaced_rels a)"
    by (simp add: length_invalid_rels_of f del: set_map)
  have "length (first_seen (map type_name (misplaced_rels a))) =
        card (type_name ` set (misplaced_rels a))"
    using distinct_card [OF distinct_first_seen, of "map type_name (misplaced_rels a)"]
    by (simp add: set_first_seen)
  then show ?thesis
    using l by (simp add: validate_presentation_rels_eq)
qed

text \<open>
  Witness for C6: two image relationships give one issue listing both and one issue for
  the kind image, with count 2.
\<close>

theorem presentation_rels_issue_shape_witness:
  "misplaced_rels model_two_images =
     [image_rel ''rId1'' ''pic1.png'', image_rel ''rId2'' ''pic2.png''] \<and>
   validate_presentation_rels model_two_images =
     [INVALID_PRESENTATION_RELS (invalid_rels_of (misplaced_rels model_two_images)),
      PRES_RELS_INVALID ''image'' 2 [''rId1'', ''rId2''] [''media/pic1.png'', ''media/pic2.png'']]"
proof -
  have t: "type_name (image_rel ''rId1'' ''pic1.png'') = ''image''"
     "type_name (image_rel ''rId2'' ''pic2.png'') = ''image''"
    by code_simp+
  show ?thesis
    using presentation_rels_issue_shape [of model_two_images] t
    by (simp add: misplaced_two_images first_seen_def image_rel_def)
qed

text \<open>
  Counterexample to C6 as stated: with \<open>N = 2\<close> misplaced relationships of \<open>k = 1\<close>
  kind, the claim's \<open>N + k\<close> is 3; the validator emits 2 issues for the descriptor
  (one listing both occurrences, one for the kind), not one issue per occurrence.
\<close>

theorem two_images_counterexample:
  "analyze archive_two_images = Inr model_two_images \<and>
   length (misplaced_rels model_two_images) = 2 \<and>
   card (type_name ` set (misplaced_rels model_two_images)) = 1 \<and>
   length (filter (\<lambda>i. issue_type i = ''INVALID_PRESENTATION_RELS''
                        \<or> str_in ''PRES_RELS_INVALID'' (issue_type i))
             (issues model_two_images)) = 2 \<and>
   length (validate_presentation_rels model_two_images) = 2"
proof -
  have t: "type_name (image_rel ''rId1'' ''pic1.png'') = ''image''"
     "type_name (image_rel ''rId2'' ''pic2.png'') = ''image''"
    by code_simp+
  have 1: "card (type_name ` set (misplaced_rels model_two_images)) = 1"
    by (simp add: misplaced_two_images t)
  have 2: "length (filter (\<lambda>i. issue_type i = ''INVALID_PRESENTATION_RELS''
                        \<or> str_in ''PRES_RELS_INVALID'' (issue_type i))
             (issues model_two_images)) = 2"
    by code_simp
  have 3: "length (validate_presentation_rels model_two_images) = 2"
    by code_simp
  show ?thesis
    using analyze_two_images 1 2 3 by (simp add: misplaced_two_images)
qed

section \<open>The scenario of the misplaced image\<close>

























section \<open>The two directions of the comparison\<close>

subsection \<open>The shared loop\<close>







subsection \<open>Each sub-comparison read in the other direction\<close>





































subsection \<open>The whole comparison\<close>




subsection \<open>Where the diffs on content types and relationships come from\<close>


























subsection \<open>A corrupt package and its repair\<close>





text \<open>
  The comparison can return in one direction and raise in the other. The structural
  comparison of a slide parses the part of the corrupt package first and returns at its
  \<^verbatim>\<open>ParseError\<close>; the part of the repaired package, whose encoding the parser
  refuses, is parsed first in the other direction only.
\<close>

lemma compare_one_direction_raises:
  "analyze archive_slide_damaged = Inr model_slide_damaged \<and>
   analyze archive_slide_unknown_encoding = Inr model_slide_unknown_encoding \<and>
   compare model_slide_damaged model_slide_unknown_encoding = Inr [] \<and>
   compare model_slide_unknown_encoding model_slide_damaged = Inl LookupError"
proof -
  have "analyze archive_slide_damaged = Inr model_slide_damaged" by code_simp
  moreover have "analyze archive_slide_unknown_encoding = Inr model_slide_unknown_encoding"
    by code_simp
  moreover have "compare model_slide_damaged model_slide_unknown_encoding = Inr []"
    by code_simp
  moreover have "compare model_slide_unknown_encoding model_slide_damaged = Inl LookupError"
    by code_simp
  ultimately show ?thesis by simp
qed




end
